theory Spec2Isabelle
  imports Complex_Main "HOL-Library.Multiset" "HOL-Library.Product_Lexorder"
    "HOL-Library.Sublist"
begin

section \<open>Text\<close>

text \<open>
  A Python \<^verbatim>\<open>str\<close> is a sequence of Unicode code points; it is modelled as a list of
  naturals, so that the length, the characters and the whitespace of the model are
  those of the source. \<open>str\<close> turns an ASCII literal into such a text.
\<close>

type_synonym py_str = "nat list"

definition str :: "string \<Rightarrow> py_str" where
  "str s = map of_char s"

text \<open>
  What \<^verbatim>\<open>str.lower\<close> and the regular-expression class \<^verbatim>\<open>\s\<close> do outside ASCII
  is decided by the Unicode tables of the Python runtime, which are not part of the
  repository. They are a parameter of the model: \<open>lower_full text i\<close> is the lowercase
  of the non-ASCII code point at position \<open>i\<close> of \<open>text\<close> (one code point may become
  several, and the final-sigma rule looks at the context), and \<open>space_ext c\<close> says
  whether the non-ASCII code point \<open>c\<close> is whitespace.
\<close>

record unicode =
  lower_full :: "py_str \<Rightarrow> nat \<Rightarrow> py_str"
  space_ext :: "nat \<Rightarrow> bool"

definition hyphen :: nat where
  "hyphen = 45"

definition ascii_lower :: "nat \<Rightarrow> nat" where
  "ascii_lower c = (if 65 \<le> c \<and> c \<le> 90 then c + 32 else c)"

text \<open>\<^verbatim>\<open>text.lower()\<close>\<close>

definition lower :: "unicode \<Rightarrow> py_str \<Rightarrow> py_str" where
  "lower U text =
     concat (map (\<lambda>i. let c = text ! i
                       in if c < 128 then [ascii_lower c] else lower_full U text i)
                 [0..<length text])"

text \<open>
  The class \<^verbatim>\<open>\s\<close> of a \<^verbatim>\<open>str\<close> pattern: in ASCII, tab, line feed, vertical tab, form
  feed, carriage return, the four separators FS, GS, RS, US, and the space.
\<close>

definition isspace :: "unicode \<Rightarrow> nat \<Rightarrow> bool" where
  "isspace U c = (if c < 128 then (9 \<le> c \<and> c \<le> 13) \<or> (28 \<le> c \<and> c \<le> 32) else space_ext U c)"

text \<open>The class \<^verbatim>\<open>[a-z0-9-]\<close>, whose complement the third substitution deletes.\<close>

definition kept :: "nat \<Rightarrow> bool" where
  "kept c = ((97 \<le> c \<and> c \<le> 122) \<or> (48 \<le> c \<and> c \<le> 57) \<or> c = hyphen)"

text \<open>
  \<^verbatim>\<open>re.sub(P+, r, s)\<close> for a character class \<open>P\<close>: every maximal run of characters of
  the class is replaced by the single character \<open>r\<close>.
\<close>

function sub_runs :: "('a \<Rightarrow> bool) \<Rightarrow> 'a \<Rightarrow> 'a list \<Rightarrow> 'a list" where
  "sub_runs P r [] = []"
| "sub_runs P r (c # cs) =
     (if P c then r # sub_runs P r (dropWhile P cs) else c # sub_runs P r cs)"
  by pat_completeness auto
termination
  by (relation "measure (\<lambda>(P, r, cs). length cs)")
     (auto simp: length_dropWhile_le less_Suc_eq_le)

text \<open>\<^verbatim>\<open>s.strip(c)\<close> for a single character \<open>c\<close>.\<close>

definition strip :: "'a \<Rightarrow> 'a list \<Rightarrow> 'a list" where
  "strip c s = rev (dropWhile (\<lambda>x. x = c) (rev (dropWhile (\<lambda>x. x = c) s)))"

section \<open>Identifier normalizer: \<^verbatim>\<open>slugify\<close> (utils/slugify.py)\<close>

text \<open>
  \<^verbatim>\<open>not text\<close> holds for \<^verbatim>\<open>None\<close> and for the empty string. No step of the function
  raises on a \<^verbatim>\<open>str\<close>, so the result is a plain text.
\<close>

definition slugify :: "unicode \<Rightarrow> py_str option \<Rightarrow> py_str" where
  "slugify U text =
     (case text of
        None \<Rightarrow> []
      | Some t \<Rightarrow>
          if t = [] then []
          else
            let slug = lower U t;
                slug = sub_runs (isspace U) hyphen slug;
                slug = filter kept slug;
                slug = sub_runs (\<lambda>c. c = hyphen) hyphen slug;
                slug = strip hyphen slug
            in slug)"

section \<open>Floating-point numbers\<close>

text \<open>
  A Python \<^verbatim>\<open>float\<close> is an IEEE 754 binary64 value: a finite number, one of the two
  infinities, or not a number. A finite value is represented by the real number that
  it denotes; the two zeros, which compare equal, are one value.
\<close>

datatype float64 = Finite real | PInf | NInf | NaN

text \<open>
  The arithmetic on floats belongs to the runtime, and what it returns is not the exact
  result: an addition, a subtraction and a division round, and the builtin \<^verbatim>\<open>sum\<close>
  adds from left to right in runtimes before 3.12 and with a compensation of the
  rounding errors since. The operations that the code uses are therefore a parameter of
  the model: \<open>py_sum ps\<close> is \<^verbatim>\<open>sum(ps)\<close> for a list of finite floats, \<open>py_truediv x n\<close> is
  \<^verbatim>\<open>x / n\<close> for a float \<open>x\<close> and a positive \<^verbatim>\<open>int\<close> \<open>n\<close>, and \<open>py_sub x y\<close> is
  \<^verbatim>\<open>x - y\<close> for two floats.
\<close>

record float_arith =
  py_sum :: "real list \<Rightarrow> float64"
  py_truediv :: "float64 \<Rightarrow> nat \<Rightarrow> float64"
  py_sub :: "float64 \<Rightarrow> float64 \<Rightarrow> float64"

text \<open>
  The comparisons with zero and the absolute value do not round. A comparison with
  not-a-number is false.
\<close>

fun gt_zero :: "float64 \<Rightarrow> bool" where
  "gt_zero (Finite x) = (0 < x)"
| "gt_zero PInf = True"
| "gt_zero NInf = False"
| "gt_zero NaN = False"

fun lt_zero :: "float64 \<Rightarrow> bool" where
  "lt_zero (Finite x) = (x < 0)"
| "lt_zero PInf = False"
| "lt_zero NInf = True"
| "lt_zero NaN = False"

fun fabs :: "float64 \<Rightarrow> float64" where
  "fabs (Finite x) = Finite \<bar>x\<bar>"
| "fabs PInf = PInf"
| "fabs NInf = PInf"
| "fabs NaN = NaN"

subsection \<open>The binary64 operations\<close>

text \<open>
  The operations of IEEE 754 in the rounding mode of Python, to nearest with ties to
  even. \<open>bit_length\<close> is \<^verbatim>\<open>int.bit_length\<close>; \<open>exponent x\<close> is the integer \<open>e\<close> with
  \<open>2 ^ e \<le> \<bar>x\<bar> < 2 ^ (e + 1)\<close>; \<open>round64 x\<close> is the float nearest to the real \<open>x\<close>:
  a multiple of the unit in the last place, which is \<open>2 ^ (e - 52)\<close> and never less
  than \<open>2 ^ - 1074\<close>, or an infinity from \<open>2 ^ 1024\<close> on.
\<close>

function bit_length :: "int \<Rightarrow> nat" where
  "bit_length n = (if n \<le> 0 then 0 else Suc (bit_length (n div 2)))"
  by pat_completeness auto
termination
  by (relation "measure nat") auto

declare bit_length.simps [simp del]

definition round_half_even :: "real \<Rightarrow> int" where
  "round_half_even x =
     (let f = \<lfloor>x\<rfloor>; d = x - of_int f
      in if d < 1 / 2 then f else if 1 / 2 < d then f + 1 else if even f then f else f + 1)"

definition exponent :: "real \<Rightarrow> int" where
  "exponent x =
     (if 1 \<le> \<bar>x\<bar> then int (bit_length \<lfloor>\<bar>x\<bar>\<rfloor>) - 1
      else
        let j = bit_length \<lfloor>1 / \<bar>x\<bar>\<rfloor>
        in if 1 / \<bar>x\<bar> = 2 ^ (j - 1) then 1 - int j else - int j)"

definition pow2 :: "int \<Rightarrow> real" where
  "pow2 i = (if 0 \<le> i then 2 ^ nat i else 1 / 2 ^ nat (- i))"

definition round64 :: "real \<Rightarrow> float64" where
  "round64 x =
     (let q = max (exponent x) (- 1022) - 52;
          v = of_int (round_half_even (\<bar>x\<bar> / pow2 q)) * pow2 q
      in if 2 ^ 1024 \<le> v then (if x < 0 then NInf else PInf) else Finite (sgn x * v))"

fun fneg :: "float64 \<Rightarrow> float64" where
  "fneg (Finite x) = Finite (- x)"
| "fneg PInf = NInf"
| "fneg NInf = PInf"
| "fneg NaN = NaN"

fun fadd :: "float64 \<Rightarrow> float64 \<Rightarrow> float64" where
  "fadd NaN y = NaN"
| "fadd x NaN = NaN"
| "fadd PInf NInf = NaN"
| "fadd NInf PInf = NaN"
| "fadd PInf y = PInf"
| "fadd x PInf = PInf"
| "fadd NInf y = NInf"
| "fadd x NInf = NInf"
| "fadd (Finite x) (Finite y) = round64 (x + y)"

text \<open>Division by a positive count, which is exact as a float below \<open>2 ^ 53\<close>.\<close>

fun fdiv_count :: "float64 \<Rightarrow> nat \<Rightarrow> float64" where
  "fdiv_count (Finite x) n = round64 (x / real n)"
| "fdiv_count PInf n = PInf"
| "fdiv_count NInf n = NInf"
| "fdiv_count NaN n = NaN"

text \<open>
  The arithmetic of a runtime before 3.12: \<^verbatim>\<open>sum\<close> starts from the \<^verbatim>\<open>int\<close> 0 and adds
  the elements one by one.
\<close>

definition binary64 :: float_arith where
  "binary64 =
     \<lparr>py_sum = (\<lambda>ps. foldl fadd (Finite 0) (map Finite ps)),
      py_truediv = fdiv_count,
      py_sub = (\<lambda>x y. fadd x (fneg y))\<rparr>"

section \<open>Value estimator: \<^verbatim>\<open>calculate_sanity_average\<close> (services/pricing\_service.py)\<close>

text \<open>
  The prices are finite floats. Both divisions of the source have a non-zero divisor
  (the list is non-empty in the first, and has at least one element left after the
  slice in the second), so no branch raises.
\<close>

text \<open>The Python slice \<^verbatim>\<open>xs[1:-1]\<close>: from index 1 up to, not including, the last index.\<close>

definition slice_1_m1 :: "'a list \<Rightarrow> 'a list" where
  "slice_1_m1 xs = take (length xs - 1 - 1) (drop 1 xs)"

definition calculate_sanity_average :: "float_arith \<Rightarrow> real list \<Rightarrow> float64 option" where
  "calculate_sanity_average A prices =
     (if prices = [] then None
      else if length prices < 3 then Some (py_truediv A (py_sum A prices) (length prices))
      else
        let sorted_prices = sort prices;
            trimmed_prices = slice_1_m1 sorted_prices
        in Some (py_truediv A (py_sum A trimmed_prices) (length trimmed_prices)))"

section \<open>Sale records and the record store\<close>

text \<open>
  A row of \<^verbatim>\<open>sales_history\<close> (models/sales\_history.py). Every column is declared
  \<^verbatim>\<open>nullable=False\<close>. The grade is a float; \<open>price\<close> is the finite float that
  \<^verbatim>\<open>float(sale.price)\<close> makes of the decimal of the column (a \<^verbatim>\<open>NUMERIC(10, 2)\<close>, below
  \<open>10 ^ 8\<close>); \<open>sold_at\<close> is a point in time, modelled as an integer.
\<close>

record SalesHistory =
  row_id :: int
  player_id :: py_str
  brand_id :: py_str
  variation_id :: py_str
  year :: int
  grade :: real
  grader :: py_str
  price :: real
  sold_at :: int

text \<open>
  \<^verbatim>\<open>SalesHistory.to_dict\<close> copies the nine columns into a dictionary under the names of
  the columns (the price through \<^verbatim>\<open>float\<close>, the time through \<^verbatim>\<open>isoformat\<close>); the
  dictionary is represented by the record of its values.
\<close>

definition to_dict :: "SalesHistory \<Rightarrow> SalesHistory" where
  "to_dict sale = sale"

text \<open>
  The database session. \<open>table\<close> holds the rows in the order in which the store
  enumerates them, \<open>similarity\<close> is the function \<^verbatim>\<open>similarity(text, text)\<close> of the
  extension \<^verbatim>\<open>pg_trgm\<close> that the store provides, and \<open>similarity_threshold\<close> is the
  setting \<^verbatim>\<open>pg_trgm.similarity_threshold\<close> of the store, 0.3 unless the store is
  configured otherwise (the repository does not set it). A statement may fail (store
  unavailable, extension missing, transaction aborted): \<open>calls\<close> counts the statements
  executed so far on the session and \<open>fails n\<close> says whether statement number \<open>n\<close>
  raises.
\<close>

datatype db_exception = DBAPIError

record AsyncSession =
  table :: "SalesHistory list"
  similarity :: "py_str \<Rightarrow> py_str \<Rightarrow> real"
  similarity_threshold :: real
  calls :: nat
  fails :: "nat \<Rightarrow> bool"

text \<open>
  \<^verbatim>\<open>await db.execute(query)\<close> followed by \<^verbatim>\<open>result.scalars().all()\<close> for a query
  \<^verbatim>\<open>select(SalesHistory).where(wh).order_by(...).limit(limit)\<close>. The ordering is given by
  a key that is sorted ascending, so a descending column is keyed by its negation. Rows
  with equal keys come in an order that SQL leaves to the store; the model takes the
  order of \<open>table\<close>.
\<close>

definition execute ::
  "AsyncSession \<Rightarrow> (SalesHistory \<Rightarrow> bool) \<Rightarrow> (SalesHistory \<Rightarrow> 'k::linorder) \<Rightarrow> nat
   \<Rightarrow> (db_exception + SalesHistory list) \<times> AsyncSession" where
  "execute db wh order_key limit =
     (let db' = db\<lparr>calls := Suc (calls db)\<rparr>
      in if fails db (calls db) then (Inl DBAPIError, db')
         else (Inr (take limit (sort_key order_key (filter wh (table db)))), db'))"

section \<open>Record matcher (services/pricing\_service.py)\<close>

text \<open>
  The constant that the source declares for the threshold. No query refers to it.
\<close>

definition SIMILARITY_THRESHOLD :: real where
  "SIMILARITY_THRESHOLD = 0.3"

text \<open>
  The operator \<^verbatim>\<open>%\<close> of \<^verbatim>\<open>pg_trgm\<close>, evaluated by the store: true if the similarity of
  its arguments is at least the similarity threshold of the store.
\<close>

definition trgm_match :: "AsyncSession \<Rightarrow> py_str \<Rightarrow> py_str \<Rightarrow> bool" where
  "trgm_match db a b = (similarity_threshold db \<le> similarity db a b)"

text \<open>
  Tier 1. \<^verbatim>\<open>if grade is not None\<close> tests presence, \<^verbatim>\<open>if grader\<close> tests truth: an empty
  grader adds no filter. Every exception of the query is caught and gives the empty
  list.
\<close>

definition query_tier1_exact_match ::
  "AsyncSession \<Rightarrow> py_str \<Rightarrow> py_str \<Rightarrow> py_str \<Rightarrow> real option \<Rightarrow> py_str option \<Rightarrow> nat
   \<Rightarrow> SalesHistory list \<times> AsyncSession" where
  "query_tier1_exact_match db player brand variation grade_opt grader_opt limit =
     (let wh = (\<lambda>s. player_id s = player \<and> brand_id s = brand \<and> variation_id s = variation
                  \<and> (case grade_opt of None \<Rightarrow> True | Some g \<Rightarrow> grade s = g)
                  \<and> (case grader_opt of None \<Rightarrow> True
                      | Some g \<Rightarrow> if g = [] then True else grader s = g))
      in case execute db wh (\<lambda>s. - sold_at s) limit of
           (Inr sales, db') \<Rightarrow> (sales, db')
         | (Inl e, db') \<Rightarrow> ([], db'))"

text \<open>Tier 2. Ordered by descending similarity, then by descending time of sale.\<close>

definition query_tier2_fuzzy_match ::
  "AsyncSession \<Rightarrow> py_str \<Rightarrow> py_str \<Rightarrow> int option \<Rightarrow> nat
   \<Rightarrow> SalesHistory list \<times> AsyncSession" where
  "query_tier2_fuzzy_match db player brand year_opt limit =
     (let wh = (\<lambda>s. trgm_match db (player_id s) player \<and> brand_id s = brand
                  \<and> (case year_opt of None \<Rightarrow> True | Some y \<Rightarrow> year s = y))
      in case execute db wh (\<lambda>s. (- similarity db (player_id s) player, - sold_at s)) limit of
           (Inr sales, db') \<Rightarrow> (sales, db')
         | (Inl e, db') \<Rightarrow> ([], db'))"

section \<open>Valuation orchestrator: \<^verbatim>\<open>get_estimated_value\<close>\<close>

record PricingResult =
  estimated_value :: "float64 option"
  match_tier :: string
  sales_count :: nat
  sales_data :: "SalesHistory list"

text \<open>Both tier functions are called without \<^verbatim>\<open>limit\<close>, so with its default 10.\<close>

definition get_estimated_value ::
  "float_arith \<Rightarrow> AsyncSession \<Rightarrow> py_str \<Rightarrow> py_str \<Rightarrow> py_str \<Rightarrow> int option \<Rightarrow> real option \<Rightarrow> py_str option
   \<Rightarrow> PricingResult \<times> AsyncSession" where
  "get_estimated_value A db player brand variation year_opt grade_opt grader_opt =
     (let (sales1, db1) = query_tier1_exact_match db player brand variation grade_opt grader_opt 10;
          (sales, tier, db2) =
            (if sales1 \<noteq> [] then (sales1, ''exact'', db1)
             else
               let (sales2, db2) = query_tier2_fuzzy_match db1 player brand year_opt 10
               in if sales2 \<noteq> [] then (sales2, ''fuzzy'', db2) else (sales2, ''none'', db2));
          prices = map price sales;
          est = calculate_sanity_average A prices
      in (\<lparr>estimated_value = est, match_tier = tier, sales_count = length sales,
           sales_data = map to_dict sales\<rparr>, db2))"


section \<open>Verdict calculator: \<^verbatim>\<open>calculate_profit_loss\<close> (services/pricing\_service.py)\<close>

text \<open>
  The verdict carries the amount printed by the format \<^verbatim>\<open>.2f\<close> of the runtime; the
  printing of a float with two decimals is the parameter \<open>fmt\<close>. The profit is compared
  with zero as floats are: when it is not a number, neither comparison holds.
\<close>

definition calculate_profit_loss ::
  "float_arith \<Rightarrow> (float64 \<Rightarrow> string) \<Rightarrow> float64 \<Rightarrow> float64 option
   \<Rightarrow> float64 option \<times> string" where
  "calculate_profit_loss A fmt listing est =
     (case est of
        None \<Rightarrow> (None, ''INSUFFICIENT DATA - No comparable sales found'')
      | Some v \<Rightarrow>
          let pl = py_sub A v listing;
              label = (if gt_zero pl then ''GOOD DEAL - Potential profit: $'' @ fmt pl
                       else if lt_zero pl then ''OVERPRICED - Potential loss: $'' @ fmt (fabs pl)
                       else ''FAIR PRICE - Listing matches market value'')
          in (Some pl, label))"

section \<open>Result cache (redis\_client.py)\<close>

text \<open>
  The structured data that the title parser returns (services/openai\_service.py); of
  its fields, those that the analysis reads. The fields \<^verbatim>\<open>year\<close>, \<^verbatim>\<open>brand\<close>,
  \<^verbatim>\<open>variation\<close> and \<^verbatim>\<open>grade\<close> carry a prime, their names being used for the columns of
  the sales and the parameters of the matcher.
\<close>

record ParsedCardData =
  player_name :: py_str
  year' :: "int option"
  brand' :: py_str
  variation' :: "py_str option"
  grading_company :: "py_str option"
  grade' :: "real option"

text \<open>
  The JSON values of a cache entry: \<^verbatim>\<open>null\<close>, a number that \<^verbatim>\<open>json.loads\<close> reads as an
  \<^verbatim>\<open>int\<close> or as a float (\<^verbatim>\<open>Infinity\<close> and \<^verbatim>\<open>NaN\<close> included), a text, and the dictionary
  that \<^verbatim>\<open>model_dump\<close> makes of the parsed data (\<open>JParsed\<close>). Booleans, arrays and
  other dictionaries, which no entry written by the repository holds, are not
  represented. A dictionary is the list of its items in the order in which they were
  written; \<^verbatim>\<open>json.dumps\<close> followed by \<^verbatim>\<open>json.loads\<close> gives it back.
\<close>

datatype jval = JNull | JInt int | JFloat float64 | JStr string | JParsed ParsedCardData

type_synonym cache_dict = "(string \<times> jval) list"

text \<open>
  The cache server: the entries that have not expired, and whether the server answers
  (when it does not, every command raises). The passing of time, and with it the
  expiry of an entry, is not modelled.
\<close>

record redis =
  entries :: "string \<rightharpoonup> cache_dict"
  up :: bool

definition generate_cache_key :: "(py_str \<Rightarrow> string) \<Rightarrow> string \<Rightarrow> py_str \<Rightarrow> string" where
  "generate_cache_key md5 pfx identifier = pfx @ '':'' @ md5 identifier"

text \<open>Every exception is caught and gives \<^verbatim>\<open>None\<close>.\<close>

definition get_cached_value :: "redis \<Rightarrow> string \<Rightarrow> cache_dict option" where
  "get_cached_value r key = (if up r then entries r key else None)"

text \<open>Every exception is caught and gives \<^verbatim>\<open>False\<close>.\<close>

definition set_cached_value :: "redis \<Rightarrow> string \<Rightarrow> cache_dict \<Rightarrow> bool \<times> redis" where
  "set_cached_value r key v =
     (if up r then (True, r\<lparr>entries := (entries r)(key \<mapsto> v)\<rparr>) else (False, r))"

section \<open>Analysis endpoint: \<^verbatim>\<open>analyze_listing\<close> (api/analyze.py)\<close>

text \<open>
  What the endpoint takes from outside the repository: the Unicode tables, the
  arithmetic of floats, the MD5 digest of a text in hexadecimal, the title parser with
  its retries (which returns the parsed data or raises), the format \<^verbatim>\<open>.2f\<close>, and what
  the response model makes of a value given for an integer field where the model below
  does not say it (\<open>lax_int\<close>).
\<close>

datatype py_exception = ValueError | OtherException

record runtime =
  unicode_tables :: unicode
  arith :: float_arith
  md5_hexdigest :: "py_str \<Rightarrow> string"
  parse_listing_title_with_retry :: "py_str \<Rightarrow> py_exception + ParsedCardData"
  format_2f :: "float64 \<Rightarrow> string"
  lax_int :: "jval \<Rightarrow> int option"

datatype http_exception = HTTPException nat

text \<open>
  The request model accepts a listing price that is greater than zero: a finite float
  or the positive infinity.
\<close>

record AnalyzeRequest =
  title :: py_str
  listing_price :: float64

text \<open>
  The fields of the response that have the name of a field of the pricing result carry
  a prime.
\<close>

record AnalyzeResponse =
  parsed_data :: ParsedCardData
  estimated_value' :: "float64 option"
  profit_loss :: "float64 option"
  verdict :: string
  match_tier' :: string
  sales_count' :: int
  cached :: bool

record app =
  cache :: redis
  session :: AsyncSession

text \<open>
  The conversion of an \<^verbatim>\<open>int\<close> to a float, which an arithmetic operation between the two
  applies: the nearest float, and \<^verbatim>\<open>OverflowError\<close> beyond the finite floats.
\<close>

definition int_to_float :: "int \<Rightarrow> float64 option" where
  "int_to_float n = (case round64 (real_of_int n) of Finite x \<Rightarrow> Some (Finite x) | _ \<Rightarrow> None)"

text \<open>
  \<^verbatim>\<open>cached_result.get("estimated_value")\<close> as the verdict calculator reads it: an absent
  key and \<^verbatim>\<open>null\<close> are \<^verbatim>\<open>None\<close>, a float is itself, an \<^verbatim>\<open>int\<close> is converted by the
  subtraction, which raises \<^verbatim>\<open>OverflowError\<close> if it is too large and \<^verbatim>\<open>TypeError\<close> on
  anything that is not a number.
\<close>

definition cached_estimate :: "cache_dict \<Rightarrow> unit + float64 option" where
  "cached_estimate d =
     (case map_of d ''estimated_value'' of
        None \<Rightarrow> Inr None
      | Some JNull \<Rightarrow> Inr None
      | Some (JFloat x) \<Rightarrow> Inr (Some x)
      | Some (JInt n) \<Rightarrow> (case int_to_float n of None \<Rightarrow> Inl () | Some x \<Rightarrow> Inr (Some x))
      | Some _ \<Rightarrow> Inl ())"

text \<open>
  What the response model makes of a cached value given for \<^verbatim>\<open>sales_count\<close>, an integer
  field validated in the lax mode of the library: an \<^verbatim>\<open>int\<close> is taken as it is, a float
  without fractional part is taken as its integer, a string of decimal digits is taken
  as the number it writes, \<^verbatim>\<open>null\<close>, a dictionary, a float with a fractional part, an
  infinity and not-a-number are refused. For the floats from \<open>2 ^ 53\<close> on and for the
  other strings the library decides (\<open>lax_int\<close>).
\<close>

definition is_digit :: "char \<Rightarrow> bool" where
  "is_digit c = (48 \<le> (of_char c :: nat) \<and> (of_char c :: nat) \<le> 57)"

definition decimal :: "string \<Rightarrow> int" where
  "decimal s = foldl (\<lambda>a c. 10 * a + (of_char c - 48)) 0 s"

definition as_int :: "runtime \<Rightarrow> jval \<Rightarrow> int option" where
  "as_int rt v =
     (case v of
        JInt n \<Rightarrow> Some n
      | JFloat (Finite x) \<Rightarrow>
          if \<bar>x\<bar> < 2 ^ 53 then (if x = of_int \<lfloor>x\<rfloor> then Some \<lfloor>x\<rfloor> else None)
          else lax_int rt v
      | JFloat _ \<Rightarrow> None
      | JStr s \<Rightarrow>
          if s \<noteq> [] \<and> length s \<le> 18 \<and> list_all is_digit s then Some (decimal s)
          else lax_int rt v
      | JNull \<Rightarrow> None
      | JParsed _ \<Rightarrow> None)"

text \<open>
  The branch of a cache hit. A missing key raises \<^verbatim>\<open>KeyError\<close> (status 500 through
  \<^verbatim>\<open>except Exception\<close>); a value that the response model does not take raises a
  validation error, which is a \<^verbatim>\<open>ValueError\<close> (status 400). The response model takes a
  dictionary for the parsed data and a string for the match tier.
\<close>

definition analyze_cached ::
  "runtime \<Rightarrow> AnalyzeRequest \<Rightarrow> cache_dict \<Rightarrow> http_exception + AnalyzeResponse" where
  "analyze_cached rt request d =
     (case cached_estimate d of
        Inl _ \<Rightarrow> Inl (HTTPException 500)
      | Inr est \<Rightarrow>
          let (pl, v) = calculate_profit_loss (arith rt) (format_2f rt) (listing_price request) est
          in case (map_of d ''parsed_data'', map_of d ''estimated_value'',
                   map_of d ''match_tier'', map_of d ''sales_count'') of
               (Some pd, Some _, Some mt, Some sc) \<Rightarrow>
                 (case (pd, mt, as_int rt sc) of
                    (JParsed p, JStr m, Some n) \<Rightarrow>
                      Inr \<lparr>parsed_data = p, estimated_value' = est, profit_loss = pl,
                           verdict = v, match_tier' = m, sales_count' = n, cached = True\<rparr>
                  | _ \<Rightarrow> Inl (HTTPException 400))
             | _ \<Rightarrow> Inl (HTTPException 500))"

text \<open>The dictionary written to the cache after a fresh valuation.\<close>

definition cache_data :: "ParsedCardData \<Rightarrow> PricingResult \<Rightarrow> cache_dict" where
  "cache_data parsed pricing_result =
     [(''parsed_data'', JParsed parsed),
      (''estimated_value'', (case estimated_value pricing_result of None \<Rightarrow> JNull | Some x \<Rightarrow> JFloat x)),
      (''match_tier'', JStr (match_tier pricing_result)),
      (''sales_count'', JInt (int (sales_count pricing_result)))]"

text \<open>The branch of a cache miss.\<close>

definition analyze_fresh ::
  "runtime \<Rightarrow> AnalyzeRequest \<Rightarrow> string \<Rightarrow> app \<Rightarrow> (http_exception + AnalyzeResponse) \<times> app" where
  "analyze_fresh rt request cache_key st =
     (case parse_listing_title_with_retry rt (title request) of
        Inl ValueError \<Rightarrow> (Inl (HTTPException 400), st)
      | Inl OtherException \<Rightarrow> (Inl (HTTPException 500), st)
      | Inr parsed \<Rightarrow>
          let U = unicode_tables rt;
              player = slugify U (Some (player_name parsed));
              brand_slug = slugify U (Some (brand' parsed));
              variation_slug =
                slugify U (Some (case variation' parsed of
                                   None \<Rightarrow> str ''Base''
                                 | Some w \<Rightarrow> if w = [] then str ''Base'' else w));
              (pricing_result, db') =
                get_estimated_value (arith rt) (session st) player brand_slug variation_slug
                  (year' parsed) (grade' parsed) (grading_company parsed);
              (ok, cache') = set_cached_value (cache st) cache_key (cache_data parsed pricing_result);
              (pl, v) = calculate_profit_loss (arith rt) (format_2f rt) (listing_price request)
                          (estimated_value pricing_result)
          in (Inr \<lparr>parsed_data = parsed, estimated_value' = estimated_value pricing_result,
                   profit_loss = pl, verdict = v, match_tier' = match_tier pricing_result,
                   sales_count' = int (sales_count pricing_result), cached = False\<rparr>,
              \<lparr>cache = cache', session = db'\<rparr>))"

text \<open>\<^verbatim>\<open>if cached_result\<close> holds for a dictionary that is not empty.\<close>

definition analyze_listing ::
  "runtime \<Rightarrow> AnalyzeRequest \<Rightarrow> app \<Rightarrow> (http_exception + AnalyzeResponse) \<times> app" where
  "analyze_listing rt request st =
     (let cache_key = generate_cache_key (md5_hexdigest rt) ''analysis'' (title request);
          cached_result = get_cached_value (cache st) cache_key
      in case cached_result of
           None \<Rightarrow> analyze_fresh rt request cache_key st
         | Some d \<Rightarrow>
             if d \<noteq> [] then (analyze_cached rt request d, st)
             else analyze_fresh rt request cache_key st)"

section \<open>The shape of a normalized identifier\<close>

text \<open>The alphanumeric part \<^verbatim>\<open>[a-z0-9]\<close> of the class.\<close>

definition alnum :: "nat \<Rightarrow> bool" where
  "alnum c = ((97 \<le> c \<and> c \<le> 122) \<or> (48 \<le> c \<and> c \<le> 57))"

text \<open>No two adjacent elements of the list are both \<open>h\<close>.\<close>

fun nodbl :: "'a \<Rightarrow> 'a list \<Rightarrow> bool" where
  "nodbl h [] = True"
| "nodbl h [x] = True"
| "nodbl h (x # y # r) = (\<not> (x = h \<and> y = h) \<and> nodbl h (y # r))"

text \<open>
  The shape of a normalized identifier: only characters of \<^verbatim>\<open>[a-z0-9-]\<close>, no two
  hyphens in a row, no hyphen at either end.
\<close>

definition is_slug :: "py_str \<Rightarrow> bool" where
  "is_slug s \<longleftrightarrow> (\<forall>c\<in>set s. kept c) \<and> \<not> sublist [hyphen, hyphen] s
     \<and> (s \<noteq> [] \<longrightarrow> hd s \<noteq> hyphen \<and> last s \<noteq> hyphen)"

text \<open>
  The normalizer read as a splitter into words. \<open>tokens sep s\<close> are the maximal runs
  of characters of \<open>s\<close> that are not separators, \<open>join h\<close> puts \<open>h\<close> between the
  elements of a list, and \<open>normalize_words\<close> splits the lowercased text at whitespace
  and hyphens, keeps the letters and digits of each word, drops the words left empty
  and joins the others with single hyphens.
\<close>

function tokens :: "('a \<Rightarrow> bool) \<Rightarrow> 'a list \<Rightarrow> 'a list list" where
  "tokens sep [] = []"
| "tokens sep (c # cs) =
     (if sep c then tokens sep cs
      else (c # takeWhile (\<lambda>x. \<not> sep x) cs) # tokens sep (dropWhile (\<lambda>x. \<not> sep x) cs))"
  by pat_completeness auto
termination
  by (relation "measure (\<lambda>(sep, cs). length cs)")
     (auto simp: length_dropWhile_le less_Suc_eq_le)

fun join :: "'a \<Rightarrow> 'a list list \<Rightarrow> 'a list" where
  "join h [] = []"
| "join h [w] = w"
| "join h (w # v # ws) = w @ h # join h (v # ws)"

definition normalize_words :: "unicode \<Rightarrow> py_str \<Rightarrow> py_str" where
  "normalize_words U t =
     join hyphen (filter (\<lambda>w. w \<noteq> [])
       (map (filter alnum) (tokens (\<lambda>c. isspace U c \<or> c = hyphen) (lower U t))))"

section \<open>What the two tiers select\<close>

text \<open>
  The condition of Tier 1 on a row: the three identifiers are equal to those of the
  query, the grade is equal to the grade of the query when one is given, and the grader
  is equal to the grader of the query when one is given and is not the empty text.
\<close>

definition tier1_matches ::
  "py_str \<Rightarrow> py_str \<Rightarrow> py_str \<Rightarrow> real option \<Rightarrow> py_str option \<Rightarrow> SalesHistory \<Rightarrow> bool" where
  "tier1_matches player brand variation grade_opt grader_opt s \<longleftrightarrow>
     player_id s = player \<and> brand_id s = brand \<and> variation_id s = variation
     \<and> (case grade_opt of None \<Rightarrow> True | Some g \<Rightarrow> grade s = g)
     \<and> (case grader_opt of None \<Rightarrow> True | Some g \<Rightarrow> g = [] \<or> grader s = g)"

text \<open>
  The condition of Tier 1 as the specification words it: the grader is compared
  whenever one is supplied.
\<close>

definition tier1_matches_as_claimed ::
  "py_str \<Rightarrow> py_str \<Rightarrow> py_str \<Rightarrow> real option \<Rightarrow> py_str option \<Rightarrow> SalesHistory \<Rightarrow> bool" where
  "tier1_matches_as_claimed player brand variation grade_opt grader_opt s \<longleftrightarrow>
     player_id s = player \<and> brand_id s = brand \<and> variation_id s = variation
     \<and> (case grade_opt of None \<Rightarrow> True | Some g \<Rightarrow> grade s = g)
     \<and> (case grader_opt of None \<Rightarrow> True | Some g \<Rightarrow> grader s = g)"

text \<open>
  The condition of Tier 2 on a row: the brand is equal to that of the query, the
  similarity of the player identifiers is at least the similarity threshold of the
  store, and the year is equal to the year of the query when one is given.
\<close>

definition tier2_matches ::
  "AsyncSession \<Rightarrow> py_str \<Rightarrow> py_str \<Rightarrow> int option \<Rightarrow> SalesHistory \<Rightarrow> bool" where
  "tier2_matches db player brand year_opt s \<longleftrightarrow>
     brand_id s = brand \<and> similarity_threshold db \<le> similarity db (player_id s) player
     \<and> (case year_opt of None \<Rightarrow> True | Some y \<Rightarrow> year s = y)"


text \<open>The rows that a successful statement returns.\<close>

definition selected :: "(SalesHistory \<Rightarrow> bool) \<Rightarrow> (SalesHistory \<Rightarrow> 'k::linorder) \<Rightarrow> nat \<Rightarrow> SalesHistory list \<Rightarrow> SalesHistory list" where
  "selected wh k n rows = take n (sort_key k (filter wh rows))"

section \<open>A small record store\<close>

text \<open>
  Four sales of brand \<^verbatim>\<open>b\<close>, a similarity that is 0.3 for two different identifiers
  with the same first character, the default threshold, and three fault schedules.
\<close>

definition example_row :: "int \<Rightarrow> string \<Rightarrow> string \<Rightarrow> int \<Rightarrow> real \<Rightarrow> string \<Rightarrow> real \<Rightarrow> int \<Rightarrow> SalesHistory" where
  "example_row i p v y g gr pr t =
     \<lparr>row_id = i, player_id = str p, brand_id = str ''b'', variation_id = str v, year = y,
      grade = g, grader = str gr, price = pr, sold_at = t\<rparr>"

definition example_table :: "SalesHistory list" where
  "example_table =
     [example_row 1 ''pa'' ''base'' 2020 9 ''PSA'' 80 3,
      example_row 2 ''pa'' ''base'' 2020 9 ''BGS'' 100 5,
      example_row 3 ''pa'' ''base'' 2021 10 ''PSA'' 120 4,
      example_row 4 ''pb'' ''gold'' 2020 8 ''PSA'' 500 9]"

definition example_similarity :: "py_str \<Rightarrow> py_str \<Rightarrow> real" where
  "example_similarity a b = (if a = b then 1 else if take 1 a = take 1 b then 3 / 10 else 0)"

definition no_fault :: "nat \<Rightarrow> bool" where
  "no_fault n = False"

definition first_fault :: "nat \<Rightarrow> bool" where
  "first_fault n = (n = 0)"

definition all_fault :: "nat \<Rightarrow> bool" where
  "all_fault n = True"

definition example_db :: "(nat \<Rightarrow> bool) \<Rightarrow> AsyncSession" where
  "example_db f =
     \<lparr>table = example_table, similarity = example_similarity, similarity_threshold = 3 / 10,
      calls = 0, fails = f\<rparr>"

text \<open>
  A runtime with the binary64 arithmetic, whose parser always reads the same card, and
  an application with an empty cache over the store above.
\<close>

text \<open>
  The format \<^verbatim>\<open>.2f\<close>: the number of hundredths nearest to the value of the float, ties
  to even, written with its sign, its integer part and two decimals.
\<close>

definition digit_char :: "nat \<Rightarrow> char" where
  "digit_char n = ''0123456789'' ! (n mod 10)"

function decimal_digits :: "nat \<Rightarrow> string" where
  "decimal_digits n =
     (if n < 10 then [digit_char n] else decimal_digits (n div 10) @ [digit_char n])"
  by pat_completeness auto
termination
  by (relation "measure id") auto

declare decimal_digits.simps [simp del]

definition example_format :: "float64 \<Rightarrow> string" where
  "example_format x =
     (case x of
        Finite r \<Rightarrow>
          let c = nat (round_half_even (\<bar>r\<bar> * 100))
          in (if r < 0 then ''-'' else []) @ decimal_digits (c div 100) @ ''.''
             @ [digit_char (c div 10), digit_char c]
      | PInf \<Rightarrow> ''inf''
      | NInf \<Rightarrow> ''-inf''
      | NaN \<Rightarrow> ''nan'')"










section \<open>Properties of the value estimator\<close>


lemma slice_1_m1_length: "length (slice_1_m1 xs) = length xs - 2"
  by (simp add: slice_1_m1_def)





lemma calculate_sanity_average_Nil: "calculate_sanity_average A [] = None"
  by (simp add: calculate_sanity_average_def)

lemma calculate_sanity_average_small:
  "prices \<noteq> [] \<Longrightarrow> length prices < 3 \<Longrightarrow>
   calculate_sanity_average A prices
     = Some (py_truediv A (py_sum A prices) (length prices))"
  by (simp add: calculate_sanity_average_def)


lemma calculate_sanity_average_None_iff:
  "calculate_sanity_average A prices = None \<longleftrightarrow> prices = []"
  by (simp add: calculate_sanity_average_def Let_def)

text \<open>The rules that evaluate the binary64 operations on numerals.\<close>

lemmas binary64_eval =
  binary64_def round64_def exponent_def pow2_def round_half_even_def bit_length.simps Let_def





section \<open>Properties of the identifier normalizer\<close>


lemma sub_runs_set: "set (sub_runs P r s) \<subseteq> insert r (set s)"
proof (induction P r s rule: sub_runs.induct)
  case (1 P r)
  show ?case by simp
next
  case (2 P r c cs)
  have "set (dropWhile P cs) \<subseteq> set cs" by (rule set_dropWhileD[THEN subsetI]) 
  with 2 show ?case by auto
qed

lemma sub_runs_same_all:
  "P r \<Longrightarrow> \<forall>c\<in>set s. Q c \<Longrightarrow> \<forall>c\<in>set (sub_runs (\<lambda>c. c = r) r s). Q c"
proof (induction "\<lambda>c. c = r" r s rule: sub_runs.induct)
  case (1 r)
  show ?case by simp
next
  case (2 r c cs)
  have "set (dropWhile (\<lambda>c. c = r) cs) \<subseteq> set cs" by (rule set_dropWhileD[THEN subsetI]) 
  with 2 show ?case by auto
qed

lemma sub_runs_id: "\<forall>c\<in>set s. \<not> P c \<Longrightarrow> sub_runs P r s = s"
  by (induction s) auto

lemma sub_runs_hd:
  "s \<noteq> [] \<Longrightarrow> sub_runs P r s \<noteq> [] \<and> hd (sub_runs P r s) = (if P (hd s) then r else hd s)"
  by (cases s) auto

lemma nodbl_Cons: "nodbl h (x # s) = ((x = h \<longrightarrow> s = [] \<or> hd s \<noteq> h) \<and> nodbl h s)"
  by (cases s) auto

lemma nodbl_sublist: "nodbl h s \<longleftrightarrow> \<not> sublist [h, h] s"
proof (induction s)
  case Nil
  show ?case by simp
next
  case (Cons x s)
  have p: "prefix [h, h] (x # s) \<longleftrightarrow> x = h \<and> s \<noteq> [] \<and> hd s = h"
    by (cases s) auto
  show ?case
    unfolding nodbl_Cons sublist_Cons_right Cons.IH p by auto
qed

lemma dropWhile_hd: "dropWhile P cs \<noteq> [] \<Longrightarrow> \<not> P (hd (dropWhile P cs))"
  by (metis hd_dropWhile)

lemma sub_runs_nodbl: "nodbl h (sub_runs (\<lambda>c. c = h) h s)"
proof (induction "\<lambda>c. c = h" h s rule: sub_runs.induct)
  case (1 h)
  show ?case by simp
next
  case (2 h c cs)
  show ?case
  proof (cases "c = h")
    case True
    let ?d = "dropWhile (\<lambda>c. c = h) cs"
    have ih: "nodbl h (sub_runs (\<lambda>c. c = h) h ?d)" using 2(1) True by simp
    have "sub_runs (\<lambda>c. c = h) h ?d = [] \<or> hd (sub_runs (\<lambda>c. c = h) h ?d) \<noteq> h"
    proof (cases "?d = []")
      case True
      then have "sub_runs (\<lambda>c. c = h) h ?d = []" by (simp only: sub_runs.simps)
      then show ?thesis by blast
    next
      case False
      then have "hd ?d \<noteq> h" using dropWhile_hd[of "\<lambda>c. c = h" cs] by simp
      then show ?thesis using sub_runs_hd[OF False, of "\<lambda>c. c = h" h] by simp
    qed
    then show ?thesis using True ih by (simp add: nodbl_Cons)
  next
    case False
    then show ?thesis using 2(2) by (simp add: nodbl_Cons)
  qed
qed

lemma sub_runs_nodbl_id: "nodbl h s \<Longrightarrow> sub_runs (\<lambda>c. c = h) h s = s"
proof (induction s)
  case Nil
  show ?case by simp
next
  case (Cons x s)
  then have n: "nodbl h s" and hdx: "x = h \<longrightarrow> s = [] \<or> hd s \<noteq> h"
    by (simp_all add: nodbl_Cons)
  have "x = h \<Longrightarrow> dropWhile (\<lambda>c. c = h) s = s"
    using hdx by (cases s) auto
  then show ?case using Cons.IH[OF n] by auto
qed

lemma strip_set: "set (strip c s) \<subseteq> set s"
  unfolding strip_def
  by (metis set_dropWhileD set_rev subsetI)

lemma strip_hd: "strip c s \<noteq> [] \<Longrightarrow> hd (strip c s) \<noteq> c"
proof -
  assume ne: "strip c s \<noteq> []"
  let ?d = "dropWhile (\<lambda>x. x = c) s"
  have "?d = [] \<Longrightarrow> strip c s = []" by (simp only: strip_def rev.simps dropWhile.simps)
  then have d: "?d \<noteq> []" using ne by blast
  then have hd_d: "hd ?d \<noteq> c" using dropWhile_hd[of "\<lambda>x. x = c" s] by simp
  let ?e = "dropWhile (\<lambda>x. x = c) (rev ?d)"
  have e: "?e \<noteq> []" using ne by (simp add: strip_def)
  have "suffix ?e (rev ?d)" by (rule suffix_dropWhile)
  then obtain ps where ps: "rev ?d = ps @ ?e" by (auto simp: suffix_def)
  then have "?d = rev ?e @ rev ps" by (metis rev_append rev_rev_ident)
  then have "hd ?d = hd (rev ?e)" using e by (metis hd_append2 rev_is_Nil_conv)
  then show ?thesis using hd_d by (simp add: strip_def)
qed

lemma strip_last: "strip c s \<noteq> [] \<Longrightarrow> last (strip c s) \<noteq> c"
proof -
  assume ne: "strip c s \<noteq> []"
  let ?e = "dropWhile (\<lambda>x. x = c) (rev (dropWhile (\<lambda>x. x = c) s))"
  have e: "?e \<noteq> []" using ne by (simp add: strip_def)
  then have "hd ?e \<noteq> c" using dropWhile_hd[of "\<lambda>x. x = c"] by blast
  then show ?thesis using e by (simp add: strip_def last_rev)
qed

lemma strip_id: "s = [] \<or> (hd s \<noteq> c \<and> last s \<noteq> c) \<Longrightarrow> strip c s = s"
proof (cases "s = []")
  case True
  then show ?thesis by (simp add: strip_def)
next
  case False
  assume "s = [] \<or> (hd s \<noteq> c \<and> last s \<noteq> c)"
  with False have h: "hd s \<noteq> c" and l: "last s \<noteq> c" by auto
  have 1: "dropWhile (\<lambda>x. x = c) s = s" using False h by (cases s) auto
  have "hd (rev s) \<noteq> c" using l False by (simp add: hd_rev)
  then have 2: "dropWhile (\<lambda>x. x = c) (rev s) = rev s" using False by (cases "rev s") auto
  show ?thesis by (simp add: strip_def 1 2)
qed

lemma strip_nodbl: "nodbl h s \<Longrightarrow> nodbl h (strip c s)"
proof -
  assume n: "nodbl h s"
  have 1: "sublist (dropWhile P xs) xs" for P and xs :: "'a list"
    using suffix_dropWhile[of P xs] by (rule suffix_imp_sublist)
  have "sublist (strip c s) s"
  proof -
    let ?d = "dropWhile (\<lambda>x. x = c) s"
    have "sublist (dropWhile (\<lambda>x. x = c) (rev ?d)) (rev ?d)" by (rule 1)
    then have "sublist (strip c s) ?d"
      unfolding strip_def by (metis sublist_rev rev_rev_ident)
    then show ?thesis using 1[of "\<lambda>x. x = c" s] by (rule sublist_order.order_trans)
  qed
  then show ?thesis using n unfolding nodbl_sublist
    by (meson sublist_order.order_trans)
qed


lemma concat_map_singleton: "concat (map (\<lambda>i. [f i]) xs) = map f xs"
  by (induction xs) auto

lemma lower_ascii:
  assumes "\<forall>c\<in>set t. c < 128"
  shows "lower U t = map ascii_lower t"
proof -
  have eq: "map (\<lambda>i. let c = t ! i in if c < 128 then [ascii_lower c] else lower_full U t i) [0..<length t]
      = map (\<lambda>i. [ascii_lower (t ! i)]) [0..<length t]"
    using assms by (intro map_cong) (auto simp: Let_def)
  have "lower U t = concat (map (\<lambda>i. [ascii_lower (t ! i)]) [0..<length t])"
    unfolding lower_def by (simp only: eq)
  also have "\<dots> = map (\<lambda>i. ascii_lower (t ! i)) [0..<length t]"
    by (rule concat_map_singleton)
  also have "\<dots> = map ascii_lower (map (nth t) [0..<length t])" by simp
  finally show ?thesis by (simp only: map_nth)
qed

lemma kept_ascii: "kept c \<Longrightarrow> c < 128 \<and> ascii_lower c = c \<and> \<not> isspace U c"
  by (auto simp: kept_def ascii_lower_def isspace_def hyphen_def)

lemma lower_kept: "\<forall>c\<in>set s. kept c \<Longrightarrow> lower U s = s"
proof -
  assume k: "\<forall>c\<in>set s. kept c"
  then have "lower U s = map ascii_lower s" using kept_ascii by (intro lower_ascii) blast
  also have "\<dots> = s" using k kept_ascii by (intro map_idI) blast
  finally show ?thesis .
qed

lemma kept_hyphen: "kept hyphen"
  by (simp add: kept_def)

lemma slugify_is_slug: "is_slug (slugify U text)"
proof (cases "text")
  case None
  then show ?thesis by (simp add: slugify_def is_slug_def)
next
  case (Some t)
  show ?thesis
  proof (cases "t = []")
    case True
    then show ?thesis using Some by (simp add: slugify_def is_slug_def)
  next
    case False
    let ?f = "filter kept (sub_runs (isspace U) hyphen (lower U t))"
    let ?c = "sub_runs (\<lambda>c. c = hyphen) hyphen ?f"
    have out: "slugify U text = strip hyphen ?c"
      using Some False by (simp add: slugify_def Let_def)
    have "\<forall>c\<in>set ?f. kept c" by simp
    then have kc: "\<forall>c\<in>set ?c. kept c"
      using sub_runs_same_all[of kept hyphen ?f] kept_hyphen by blast
    have 1: "\<forall>c\<in>set (strip hyphen ?c). kept c"
      using kc strip_set[of hyphen ?c] by blast
    have "nodbl hyphen (strip hyphen ?c)"
      by (rule strip_nodbl) (rule sub_runs_nodbl)
    then have 2: "\<not> sublist [hyphen, hyphen] (strip hyphen ?c)"
      by (simp add: nodbl_sublist)
    show ?thesis
      unfolding out is_slug_def using 1 2 strip_hd[of hyphen ?c] strip_last[of hyphen ?c]
      by blast
  qed
qed

lemma slugify_fixed: "is_slug s \<Longrightarrow> slugify U (Some s) = s"
proof (cases "s = []")
  case True
  then show ?thesis by (simp add: slugify_def)
next
  case False
  assume sl: "is_slug s"
  then have k: "\<forall>c\<in>set s. kept c" and n: "nodbl hyphen s"
    and e: "hd s \<noteq> hyphen \<and> last s \<noteq> hyphen"
    using False by (simp_all add: is_slug_def nodbl_sublist)
  have 1: "lower U s = s" using k by (rule lower_kept)
  have 2: "sub_runs (isspace U) hyphen s = s"
    using k kept_ascii by (intro sub_runs_id) blast
  have 3: "filter kept s = s" using k by simp
  have 4: "sub_runs (\<lambda>c. c = hyphen) hyphen s = s" using n by (rule sub_runs_nodbl_id)
  have 5: "strip hyphen s = s" using e by (intro strip_id) simp
  show ?thesis using False by (simp add: slugify_def Let_def 1 2 3 4 5)
qed

lemma slugify_idem: "slugify U (Some (slugify U text)) = slugify U text"
  using slugify_is_slug by (rule slugify_fixed)

lemma filter_dropWhile_disj: "(\<And>x. P x \<Longrightarrow> \<not> Q x) \<Longrightarrow> filter Q (dropWhile P s) = filter Q s"
  by (induction s) auto

lemma filter_sub_runs:
  "\<not> Q r \<Longrightarrow> (\<And>x. P x \<Longrightarrow> \<not> Q x) \<Longrightarrow> filter Q (sub_runs P r s) = filter Q s"
proof (induction P r s rule: sub_runs.induct)
  case (1 P r)
  show ?case by simp
next
  case (2 P r c cs)
  show ?case
  proof (cases "P c")
    case True
    then have "filter Q (sub_runs P r (c # cs)) = filter Q (sub_runs P r (dropWhile P cs))"
      using 2(3) by simp
    also have "\<dots> = filter Q (dropWhile P cs)" using 2(1)[OF True 2(3)] 2(4) by blast
    also have "\<dots> = filter Q cs" using 2(4) by (rule filter_dropWhile_disj)
    finally show ?thesis using True 2(4) by simp
  next
    case False
    then show ?thesis using 2(2)[OF False 2(3)] 2(4) by simp
  qed
qed

lemma filter_strip: "\<not> Q c \<Longrightarrow> filter Q (strip c s) = filter Q s"
proof -
  assume q: "\<not> Q c"
  have d: "filter Q (dropWhile (\<lambda>x. x = c) xs) = filter Q xs" for xs
    using q by (intro filter_dropWhile_disj) simp
  have "filter Q (strip c s) = rev (filter Q (dropWhile (\<lambda>x. x = c) (rev (dropWhile (\<lambda>x. x = c) s))))"
    by (simp add: strip_def rev_filter)
  also have "\<dots> = rev (filter Q (rev (dropWhile (\<lambda>x. x = c) s)))" by (simp only: d)
  also have "\<dots> = filter Q (dropWhile (\<lambda>x. x = c) s)" by (simp add: rev_filter)
  finally show ?thesis by (simp only: d)
qed

lemma slugify_alnum: "filter alnum (slugify U (Some t)) = filter alnum (lower U t)"
proof (cases "t = []")
  case True
  then show ?thesis by (simp add: slugify_def lower_def)
next
  case False
  have a1: "\<not> alnum hyphen" by (simp add: alnum_def hyphen_def)
  have a2: "isspace U x \<Longrightarrow> \<not> alnum x" for x
    by (auto simp: alnum_def isspace_def split: if_splits)
  have a3: "(\<lambda>x. alnum x \<and> kept x) = alnum" by (auto simp: kept_def alnum_def)
  let ?w = "sub_runs (isspace U) hyphen (lower U t)"
  have "filter alnum (slugify U (Some t))
      = filter alnum (strip hyphen (sub_runs (\<lambda>c. c = hyphen) hyphen (filter kept ?w)))"
    using False by (simp add: slugify_def Let_def)
  also have "\<dots> = filter alnum (sub_runs (\<lambda>c. c = hyphen) hyphen (filter kept ?w))"
    using a1 by (rule filter_strip)
  also have "\<dots> = filter alnum (filter kept ?w)"
    using a1 by (intro filter_sub_runs) auto
  also have "\<dots> = filter alnum ?w"
    unfolding filter_filter by (rule filter_cong) (auto simp: kept_def alnum_def)
  also have "\<dots> = filter alnum (lower U t)"
    using a1 a2 by (intro filter_sub_runs) auto
  finally show ?thesis .
qed

lemma slugify_example:
  "slugify U (Some (str ''  Ken Griffey   Jr.  '')) = str ''ken-griffey-jr''"
proof -
  have a: "\<forall>c\<in>set (str ''  Ken Griffey   Jr.  ''). c < 128" by (simp add: str_def)
  show ?thesis
    by (simp add: slugify_def Let_def lower_ascii[OF a])
       (simp add: str_def ascii_lower_def isspace_def kept_def hyphen_def strip_def)
qed

lemma tokens_dropWhile_sep: "tokens sep (dropWhile sep cs) = tokens sep cs"
  by (induction cs) auto

lemma tokens_all_sep: "\<forall>c\<in>set u. sep c \<Longrightarrow> tokens sep u = []"
  by (induction u) auto

lemma tokens_append_sep:
  "\<forall>c\<in>set u. sep c \<Longrightarrow> tokens sep (a @ u) = tokens sep a"
proof (induction sep a rule: tokens.induct)
  case (1 sep)
  then show ?case by (simp add: tokens_all_sep)
next
  case (2 sep c cs)
  show ?case
  proof (cases "sep c")
    case True
    then show ?thesis using 2 by simp
  next
    case False
    show ?thesis
    proof (cases "\<forall>x\<in>set cs. \<not> sep x")
      case True
      have u: "takeWhile (\<lambda>x. \<not> sep x) u = []" "dropWhile (\<lambda>x. \<not> sep x) u = u"
        using 2(3) by (cases u; simp)+
      have f1: "takeWhile (\<lambda>x. \<not> sep x) (cs @ u) = cs" "dropWhile (\<lambda>x. \<not> sep x) (cs @ u) = u"
        using True u by (simp_all add: takeWhile_append2 dropWhile_append2)
      have f2: "takeWhile (\<lambda>x. \<not> sep x) cs = cs" "dropWhile (\<lambda>x. \<not> sep x) cs = []"
        using True by simp_all
      have f3: "tokens sep u = []" using 2(3) by (rule tokens_all_sep)
      show ?thesis using False by (simp add: f1 f2 f3)
    next
      case nall: False
      then obtain x where x: "x \<in> set cs" "sep x" by blast
      then have "takeWhile (\<lambda>x. \<not> sep x) (cs @ u) = takeWhile (\<lambda>x. \<not> sep x) cs"
          "dropWhile (\<lambda>x. \<not> sep x) (cs @ u) = dropWhile (\<lambda>x. \<not> sep x) cs @ u"
        by (auto simp: takeWhile_append1 dropWhile_append1)
      then show ?thesis using False 2(2)[OF False 2(3)] by simp
    qed
  qed
qed

lemma join_Cons: "ws \<noteq> [] \<Longrightarrow> join h (w # ws) = w @ h # join h ws"
  by (cases ws) auto

lemma tokens_nonempty: "y \<noteq> [] \<Longrightarrow> \<not> sep (hd y) \<Longrightarrow> tokens sep y \<noteq> []"
  by (cases y) auto

lemma slug_join_tokens:
  "nodbl h y \<Longrightarrow> y = [] \<or> (hd y \<noteq> h \<and> last y \<noteq> h) \<Longrightarrow>
   join h (tokens (\<lambda>c. c = h) y) = y"
proof (induction "length y" arbitrary: y rule: less_induct)
  case less
  show ?case
  proof (cases y)
    case Nil
    then show ?thesis by simp
  next
    case (Cons c cs)
    with less.prems have c: "c \<noteq> h" and l: "last (c # cs) \<noteq> h" by auto
    let ?tw = "takeWhile (\<lambda>x. x \<noteq> h) cs"
    let ?d = "dropWhile (\<lambda>x. x \<noteq> h) cs"
    have tok: "tokens (\<lambda>c. c = h) y = (c # ?tw) # tokens (\<lambda>c. c = h) ?d"
      using Cons c by simp
    show ?thesis
    proof (cases "?d = []")
      case True
      then have "?tw = cs" by (metis append_Nil2 takeWhile_dropWhile_id)
      then show ?thesis using tok True Cons by simp
    next
      case False
      then obtain d' where d: "?d = h # d'"
        using hd_dropWhile[of "\<lambda>x. x \<noteq> h" cs] by (cases ?d) auto
      have y: "y = (c # ?tw) @ h # d'"
        using Cons d by (metis append_Cons takeWhile_dropWhile_id)
      have d'ne: "d' \<noteq> []"
      proof
        assume "d' = []"
        then have "last y = h" using y by simp
        then show False using l Cons by simp
      qed
      have n: "nodbl h (h # d')"
      proof -
        have "sublist (h # d') y" unfolding y by (rule sublist_append_leftI)
        then show ?thesis using less.prems(1) unfolding nodbl_sublist
          by (meson sublist_order.order_trans)
      qed
      then have hd': "hd d' \<noteq> h" and n': "nodbl h d'" using d'ne by (simp_all add: nodbl_Cons)
      have "last d' = last y" using y d'ne by simp
      then have l': "last d' \<noteq> h" using l Cons by simp
      have len: "length d' < length y" using y by simp
      have ih: "join h (tokens (\<lambda>c. c = h) d') = d'"
        using less.hyps[OF len n'] hd' l' by simp
      have ne: "tokens (\<lambda>c. c = h) d' \<noteq> []"
        using d'ne hd' by (intro tokens_nonempty) simp_all
      have "tokens (\<lambda>c. c = h) y = (c # ?tw) # tokens (\<lambda>c. c = h) d'"
        using tok d by simp
      then have "join h (tokens (\<lambda>c. c = h) y) = (c # ?tw) @ h # d'"
        using join_Cons[OF ne] ih by simp
      then show ?thesis using y by simp
    qed
  qed
qed

lemma takeWhile_sub_runs:
  "sep r \<Longrightarrow> takeWhile (\<lambda>x. \<not> sep x) (sub_runs sep r cs) = takeWhile (\<lambda>x. \<not> sep x) cs"
  by (induction cs) simp_all

lemma dropWhile_sub_runs:
  "sep r \<Longrightarrow> dropWhile (\<lambda>x. \<not> sep x) (sub_runs sep r cs)
     = sub_runs sep r (dropWhile (\<lambda>x. \<not> sep x) cs)"
  by (induction cs) simp_all

lemma tokens_sub_runs: "sep r \<Longrightarrow> tokens sep (sub_runs sep r x) = tokens sep x"
proof (induction "length x" arbitrary: x rule: less_induct)
  case less
  show ?case
  proof (cases x)
    case Nil
    then show ?thesis by simp
  next
    case (Cons c cs)
    show ?thesis
    proof (cases "sep c")
      case True
      have "length (dropWhile sep cs) < length x"
        using Cons length_dropWhile_le[of sep cs] by simp
      from less.hyps[OF this less.prems]
      show ?thesis using Cons True less.prems by (simp add: tokens_dropWhile_sep)
    next
      case False
      have "length (dropWhile (\<lambda>x. \<not> sep x) cs) < length x"
        using Cons length_dropWhile_le[of "\<lambda>x. \<not> sep x" cs] by simp
      from less.hyps[OF this less.prems]
      show ?thesis using Cons False less.prems
        by (simp add: takeWhile_sub_runs dropWhile_sub_runs)
    qed
  qed
qed

lemma tokens_strip: "tokens (\<lambda>c. c = h) (strip h z) = tokens (\<lambda>c. c = h) z"
proof -
  let ?P = "\<lambda>x. x = h"
  let ?z1 = "dropWhile ?P z"
  have "rev (dropWhile ?P (rev ?z1)) @ rev (takeWhile ?P (rev ?z1))
      = rev (takeWhile ?P (rev ?z1) @ dropWhile ?P (rev ?z1))"
    by (simp only: rev_append)
  also have "\<dots> = rev (rev ?z1)" by (simp only: takeWhile_dropWhile_id)
  also have "\<dots> = ?z1" by (simp only: rev_rev_ident)
  finally have z1: "strip h z @ rev (takeWhile ?P (rev ?z1)) = ?z1"
    by (simp only: strip_def)
  have "\<forall>c\<in>set (rev (takeWhile ?P (rev ?z1))). c = h"
    by (auto dest: set_takeWhileD)
  then have "tokens ?P (strip h z @ rev (takeWhile ?P (rev ?z1))) = tokens ?P (strip h z)"
    by (rule tokens_append_sep)
  then have "tokens ?P ?z1 = tokens ?P (strip h z)" by (simp only: z1)
  then show ?thesis by (simp only: tokens_dropWhile_sep)
qed

lemma strip_collapse_join:
  "strip h (sub_runs (\<lambda>c. c = h) h x) = join h (tokens (\<lambda>c. c = h) x)"
proof -
  let ?y = "strip h (sub_runs (\<lambda>c. c = h) h x)"
  have n: "nodbl h ?y" by (rule strip_nodbl) (rule sub_runs_nodbl)
  have e: "?y = [] \<or> (hd ?y \<noteq> h \<and> last ?y \<noteq> h)"
    using strip_hd[of h] strip_last[of h] by blast
  have "?y = join h (tokens (\<lambda>c. c = h) ?y)" using slug_join_tokens[OF n e] by simp
  also have "tokens (\<lambda>c. c = h) ?y = tokens (\<lambda>c. c = h) x"
    by (simp add: tokens_strip tokens_sub_runs)
  finally show ?thesis .
qed

lemma tokens_block:
  "\<forall>c\<in>set w. \<not> sep c \<Longrightarrow> d = [] \<or> sep (hd d) \<Longrightarrow>
   tokens sep (w @ d) = (if w = [] then [] else [w]) @ tokens sep d"
proof (cases w)
  case Nil
  then show ?thesis by simp
next
  case (Cons c cs)
  assume w: "\<forall>c\<in>set w. \<not> sep c" and d: "d = [] \<or> sep (hd d)"
  have cs: "\<forall>x\<in>set cs. \<not> sep x" and c: "\<not> sep c" using w Cons by auto
  have d1: "takeWhile (\<lambda>x. \<not> sep x) d = []" and d2: "dropWhile (\<lambda>x. \<not> sep x) d = d"
    using d by (cases d; simp)+
  have "takeWhile (\<lambda>x. \<not> sep x) (cs @ d) = cs" "dropWhile (\<lambda>x. \<not> sep x) (cs @ d) = d"
    using cs d1 d2 by (simp_all add: takeWhile_append2 dropWhile_append2)
  then show ?thesis using Cons c by simp
qed

lemma tokens_filter:
  "Q h \<Longrightarrow> tokens (\<lambda>c. c = h) (filter Q z)
     = filter (\<lambda>w. w \<noteq> []) (map (filter Q) (tokens (\<lambda>c. c = h) z))"
proof (induction "\<lambda>c. c = h" z rule: tokens.induct)
  case 1
  show ?case by simp
next
  case (2 c cs)
  show ?case
  proof (cases "c = h")
    case True
    then show ?thesis using 2 by simp
  next
    case False
    let ?tw = "takeWhile (\<lambda>x. x \<noteq> h) cs"
    let ?d = "dropWhile (\<lambda>x. x \<noteq> h) cs"
    have ih: "tokens (\<lambda>c. c = h) (filter Q ?d)
        = filter (\<lambda>w. w \<noteq> []) (map (filter Q) (tokens (\<lambda>c. c = h) ?d))"
      using 2(2)[OF False 2(3)] .
    have "c # cs = (c # ?tw) @ ?d" by simp
    then have e1: "filter Q (c # cs) = filter Q (c # ?tw) @ filter Q ?d"
      by (metis filter_append)
    have w: "\<forall>x\<in>set (filter Q (c # ?tw)). \<not> x = h"
      using False by (auto dest: set_takeWhileD)
    have d: "filter Q ?d = [] \<or> hd (filter Q ?d) = h"
    proof (cases ?d)
      case Nil
      then have "filter Q ?d = []" by (simp only: filter.simps)
      then show ?thesis by blast
    next
      case (Cons x xs)
      then have "x = h" using hd_dropWhile[of "\<lambda>x. x \<noteq> h" cs] by auto
      then show ?thesis using Cons 2(3) by simp
    qed
    have "tokens (\<lambda>c. c = h) (filter Q (c # ?tw) @ filter Q ?d)
        = (if filter Q (c # ?tw) = [] then [] else [filter Q (c # ?tw)])
          @ tokens (\<lambda>c. c = h) (filter Q ?d)"
      using w d by (rule tokens_block)
    then have e2: "tokens (\<lambda>c. c = h) (filter Q (c # cs))
        = (if filter Q (c # ?tw) = [] then [] else [filter Q (c # ?tw)])
          @ filter (\<lambda>w. w \<noteq> []) (map (filter Q) (tokens (\<lambda>c. c = h) ?d))"
      by (simp only: e1 ih)
    have t1: "tokens (\<lambda>c. c = h) (c # cs) = (c # ?tw) # tokens (\<lambda>c. c = h) ?d"
      using False by simp
    have "filter (\<lambda>w. w \<noteq> []) (map (filter Q) ((c # ?tw) # tokens (\<lambda>c. c = h) ?d))
        = (if filter Q (c # ?tw) = [] then [] else [filter Q (c # ?tw)])
          @ filter (\<lambda>w. w \<noteq> []) (map (filter Q) (tokens (\<lambda>c. c = h) ?d))"
      by (simp only: list.map filter.simps append.simps if_not_P split: if_splits) auto
    then show ?thesis by (simp only: e2 t1)
  qed
qed

lemma tokens_dropWhile_sub: "(\<And>x. P x \<Longrightarrow> sep x) \<Longrightarrow> tokens sep (dropWhile P cs) = tokens sep cs"
  by (induction cs) auto

lemma takeWhile_sub_runs2:
  "\<not> P h \<Longrightarrow> takeWhile (\<lambda>x. x \<noteq> h) (sub_runs P h cs) = takeWhile (\<lambda>x. \<not> (P x \<or> x = h)) cs"
  by (induction cs) simp_all

lemma dropWhile_sub_runs2:
  "\<not> P h \<Longrightarrow> dropWhile (\<lambda>x. x \<noteq> h) (sub_runs P h cs)
     = sub_runs P h (dropWhile (\<lambda>x. \<not> (P x \<or> x = h)) cs)"
  by (induction cs) simp_all

lemma tokens_sub_runs2:
  "\<not> P h \<Longrightarrow> tokens (\<lambda>c. c = h) (sub_runs P h x) = tokens (\<lambda>c. P c \<or> c = h) x"
proof (induction "length x" arbitrary: x rule: less_induct)
  case less
  show ?case
  proof (cases x)
    case Nil
    then show ?thesis by simp
  next
    case (Cons c cs)
    show ?thesis
    proof (cases "P c")
      case True
      have "length (dropWhile P cs) < length x"
        using Cons length_dropWhile_le[of P cs] by simp
      from less.hyps[OF this less.prems]
      have "tokens (\<lambda>c. c = h) (sub_runs P h (dropWhile P cs))
          = tokens (\<lambda>c. P c \<or> c = h) cs"
        by (simp add: tokens_dropWhile_sub)
      then show ?thesis using Cons True by simp
    next
      case False
      show ?thesis
      proof (cases "c = h")
        case True
        have "length cs < length x" using Cons by simp
        from less.hyps[OF this less.prems]
        show ?thesis using Cons True False by simp
      next
        case ch: False
        have "length (dropWhile (\<lambda>x. \<not> (P x \<or> x = h)) cs) < length x"
          using Cons length_dropWhile_le[of "\<lambda>x. \<not> (P x \<or> x = h)" cs] by simp
        from less.hyps[OF this less.prems]
        show ?thesis using Cons False ch less.prems
          by (simp add: takeWhile_sub_runs2 dropWhile_sub_runs2)
      qed
    qed
  qed
qed

lemma tokens_no_sep: "w \<in> set (tokens sep x) \<Longrightarrow> c \<in> set w \<Longrightarrow> \<not> sep c"
proof (induction sep x rule: tokens.induct)
  case (1 sep)
  then show ?case by simp
next
  case (2 sep a cs)
  show ?case
  proof (cases "sep a")
    case True
    then show ?thesis using 2 by simp
  next
    case False
    from 2(3) False have "w = a # takeWhile (\<lambda>x. \<not> sep x) cs
        \<or> w \<in> set (tokens sep (dropWhile (\<lambda>x. \<not> sep x) cs))" by simp
    then show ?thesis
    proof
      assume "w = a # takeWhile (\<lambda>x. \<not> sep x) cs"
      then show ?thesis using 2(4) False by (auto dest: set_takeWhileD)
    next
      assume "w \<in> set (tokens sep (dropWhile (\<lambda>x. \<not> sep x) cs))"
      then show ?thesis using 2(2)[OF False _ 2(4)] by simp
    qed
  qed
qed

lemma slugify_words: "slugify U (Some t) = normalize_words U t"
proof (cases "t = []")
  case True
  then show ?thesis by (simp add: slugify_def normalize_words_def lower_def)
next
  case False
  let ?sep = "\<lambda>c. isspace U c \<or> c = hyphen"
  let ?s = "lower U t"
  have nh: "\<not> isspace U hyphen" by (simp add: isspace_def hyphen_def)
  have "slugify U (Some t)
      = strip hyphen (sub_runs (\<lambda>c. c = hyphen) hyphen
          (filter kept (sub_runs (isspace U) hyphen ?s)))"
    using False by (simp add: slugify_def Let_def)
  also have "\<dots> = join hyphen (tokens (\<lambda>c. c = hyphen)
          (filter kept (sub_runs (isspace U) hyphen ?s)))"
    by (rule strip_collapse_join)
  also have "tokens (\<lambda>c. c = hyphen) (filter kept (sub_runs (isspace U) hyphen ?s))
      = filter (\<lambda>w. w \<noteq> []) (map (filter kept)
          (tokens (\<lambda>c. c = hyphen) (sub_runs (isspace U) hyphen ?s)))"
    using kept_hyphen by (rule tokens_filter)
  also have "tokens (\<lambda>c. c = hyphen) (sub_runs (isspace U) hyphen ?s) = tokens ?sep ?s"
    using nh by (rule tokens_sub_runs2)
  also have "map (filter kept) (tokens ?sep ?s) = map (filter alnum) (tokens ?sep ?s)"
  proof (rule map_cong[OF refl])
    fix w assume w: "w \<in> set (tokens ?sep ?s)"
    show "filter kept w = filter alnum w"
    proof (rule filter_cong[OF refl])
      fix c assume "c \<in> set w"
      then have "c \<noteq> hyphen" using tokens_no_sep[OF w] by blast
      then show "kept c = alnum c" by (auto simp: kept_def alnum_def)
    qed
  qed
  finally show ?thesis by (simp add: normalize_words_def)
qed

text \<open>
  Claim C7. The normalizer returns a text for every input, whatever the Unicode tables
  of the runtime: the empty text for an absent or empty input, and otherwise the
  lowercased input in which every run of whitespace has become one hyphen, every
  character outside \<^verbatim>\<open>[a-z0-9-]\<close> has been deleted, every run of hyphens has become one
  hyphen, and the hyphens at both ends have been removed. So the result consists of
  characters of \<^verbatim>\<open>[a-z0-9-]\<close> only, has no two hyphens in a row and no hyphen at either
  end, and its letters and digits are those of the lowercased input in their order
  (nothing is transliterated). Read as words, the result is the list of the words of
  the lowercased input between whitespace and hyphens, each reduced to its letters and
  digits, without the words left empty, joined by single hyphens. The example of the
  specification evaluates as stated.
\<close>

theorem slugify_normalizes:
  "slugify U None = [] \<and> slugify U (Some []) = []
   \<and> (\<forall>c\<in>set (slugify U x). kept c)
   \<and> \<not> sublist [hyphen, hyphen] (slugify U x)
   \<and> (slugify U x \<noteq> [] \<longrightarrow> hd (slugify U x) \<noteq> hyphen \<and> last (slugify U x) \<noteq> hyphen)
   \<and> filter alnum (slugify U (Some t)) = filter alnum (lower U t)
   \<and> (t \<noteq> [] \<longrightarrow>
        slugify U (Some t) =
          strip hyphen (sub_runs (\<lambda>c. c = hyphen) hyphen
            (filter kept (sub_runs (isspace U) hyphen (lower U t)))))
   \<and> slugify U (Some t) = normalize_words U t
   \<and> slugify U (Some (str ''  Ken Griffey   Jr.  '')) = str ''ken-griffey-jr''"
proof -
  have e: "slugify U None = []" "slugify U (Some []) = []"
    by (simp_all add: slugify_def)
  have p: "t \<noteq> [] \<longrightarrow>
        slugify U (Some t) =
          strip hyphen (sub_runs (\<lambda>c. c = hyphen) hyphen
            (filter kept (sub_runs (isspace U) hyphen (lower U t))))"
    by (simp add: slugify_def Let_def)
  show ?thesis
    using e p slugify_is_slug[of U x] slugify_alnum[of U t] slugify_example[of U]
      slugify_words[of U t]
    unfolding is_slug_def by blast
qed

theorem slugify_normalizes_witness:
  "slugify \<lparr>lower_full = (\<lambda>t i. [t ! i]), space_ext = (\<lambda>c. c = 160)\<rparr> (Some [75, 233, 160, 45, 74])
     = [107, 45, 106]
   \<and> 107 \<in> set (slugify \<lparr>lower_full = (\<lambda>t i. [t ! i]), space_ext = (\<lambda>c. c = 160)\<rparr>
                    (Some [75, 233, 160, 45, 74]))
   \<and> kept 107
   \<and> [75, 233, 160, 45, 74] \<noteq> ([] :: nat list)
   \<and> hd [107, 45, 106] \<noteq> hyphen \<and> last [107, 45, 106] \<noteq> hyphen"
proof -
  let ?U = "\<lparr>lower_full = (\<lambda>t i. [t ! i]), space_ext = (\<lambda>c. c = 160)\<rparr>"
  have v: "slugify ?U (Some [75, 233, 160, 45, 74]) = [107, 45, 106]"
    by (simp add: slugify_def Let_def lower_def ascii_lower_def isspace_def kept_def
        hyphen_def strip_def upt_rec_numeral)
  from slugify_normalizes[of ?U "Some [75, 233, 160, 45, 74]" "[75, 233, 160, 45, 74]"]
  have a: "\<forall>c\<in>set (slugify ?U (Some [75, 233, 160, 45, 74])). kept c"
    and b: "slugify ?U (Some [75, 233, 160, 45, 74]) \<noteq> [] \<longrightarrow>
            hd (slugify ?U (Some [75, 233, 160, 45, 74])) \<noteq> hyphen
            \<and> last (slugify ?U (Some [75, 233, 160, 45, 74])) \<noteq> hyphen"
    by blast+
  show ?thesis using a b unfolding v by simp
qed

text \<open>
  Claim C9. The normalizer is idempotent: normalizing a normalized identifier returns
  it unchanged, for every input (absent, empty or any text).
\<close>

theorem slugify_idempotent:
  "slugify U (Some (slugify U x)) = slugify U x"
  using slugify_is_slug by (rule slugify_fixed)

section \<open>Properties of the record matcher\<close>


lemma execute_ok:
  "\<not> fails db (calls db) \<Longrightarrow>
   execute db wh k n = (Inr (selected wh k n (table db)), db\<lparr>calls := Suc (calls db)\<rparr>)"
  by (simp add: execute_def selected_def Let_def)

lemma execute_fails:
  "fails db (calls db) \<Longrightarrow> execute db wh k n = (Inl DBAPIError, db\<lparr>calls := Suc (calls db)\<rparr>)"
  by (simp add: execute_def Let_def)

lemma selected_mset: "mset (selected wh k n rows) \<subseteq># mset (filter wh rows)"
proof -
  let ?ys = "sort_key k (filter wh rows)"
  have "mset ?ys = mset (take n ?ys) + mset (drop n ?ys)"
    by (metis append_take_drop_id mset_append)
  then have "mset (take n ?ys) \<subseteq># mset ?ys" by simp
  then show ?thesis by (simp add: selected_def)
qed

lemma selected_length: "length (selected wh k n rows) = min n (length (filter wh rows))"
  by (simp add: selected_def min.commute)

lemma selected_sorted: "sorted (map k (selected wh k n rows))"
  unfolding selected_def take_map[symmetric]
  by (intro sorted_wrt_take) simp

lemma selected_rest:
  assumes "s \<in># mset (filter wh rows) - mset (selected wh k n rows)"
    and "r \<in> set (selected wh k n rows)"
  shows "k r \<le> k s"
proof -
  let ?ys = "sort_key k (filter wh rows)"
  have split: "?ys = take n ?ys @ drop n ?ys" by simp
  have "mset (filter wh rows) = mset (take n ?ys) + mset (drop n ?ys)"
    by (metis append_take_drop_id mset_append mset_sort)
  then have "mset (filter wh rows) - mset (selected wh k n rows) = mset (drop n ?ys)"
    by (simp add: selected_def)
  then have s: "s \<in> set (drop n ?ys)" using assms(1) by simp
  have r: "r \<in> set (take n ?ys)" using assms(2) by (simp add: selected_def)
  have "sorted (map k (take n ?ys @ drop n ?ys))" by simp
  then have "\<forall>a\<in>set (take n ?ys). \<forall>b\<in>set (drop n ?ys). k a \<le> k b"
    unfolding map_append sorted_append by auto
  then show ?thesis using r s by blast
qed

lemma query_tier1_ok:
  "\<not> fails db (calls db) \<Longrightarrow>
   query_tier1_exact_match db player brand variation grade_opt grader_opt n =
     (selected (tier1_matches player brand variation grade_opt grader_opt) (\<lambda>s. - sold_at s) n (table db),
      db\<lparr>calls := Suc (calls db)\<rparr>)"
proof -
  assume ok: "\<not> fails db (calls db)"
  have eq: "(\<lambda>s. player_id s = player \<and> brand_id s = brand \<and> variation_id s = variation
                  \<and> (case grade_opt of None \<Rightarrow> True | Some g \<Rightarrow> grade s = g)
                  \<and> (case grader_opt of None \<Rightarrow> True
                      | Some g \<Rightarrow> if g = [] then True else grader s = g))
     = tier1_matches player brand variation grade_opt grader_opt"
    by (auto simp: tier1_matches_def fun_eq_iff split: option.splits)
  show ?thesis
    unfolding query_tier1_exact_match_def Let_def eq execute_ok[OF ok] by simp
qed

lemma query_tier1_fails:
  "fails db (calls db) \<Longrightarrow>
   query_tier1_exact_match db player brand variation grade_opt grader_opt n =
     ([], db\<lparr>calls := Suc (calls db)\<rparr>)"
  unfolding query_tier1_exact_match_def Let_def by (simp add: execute_fails)

lemma query_tier2_ok:
  "\<not> fails db (calls db) \<Longrightarrow>
   query_tier2_fuzzy_match db player brand year_opt n =
     (selected (tier2_matches db player brand year_opt)
        (\<lambda>s. (- similarity db (player_id s) player, - sold_at s)) n (table db),
      db\<lparr>calls := Suc (calls db)\<rparr>)"
proof -
  assume ok: "\<not> fails db (calls db)"
  have eq: "(\<lambda>s. trgm_match db (player_id s) player \<and> brand_id s = brand
                  \<and> (case year_opt of None \<Rightarrow> True | Some y \<Rightarrow> year s = y))
     = tier2_matches db player brand year_opt"
    by (auto simp: tier2_matches_def trgm_match_def fun_eq_iff split: option.splits)
  show ?thesis
    unfolding query_tier2_fuzzy_match_def Let_def eq execute_ok[OF ok] by simp
qed

lemma query_tier2_fails:
  "fails db (calls db) \<Longrightarrow>
   query_tier2_fuzzy_match db player brand year_opt n = ([], db\<lparr>calls := Suc (calls db)\<rparr>)"
  unfolding query_tier2_fuzzy_match_def Let_def by (simp add: execute_fails)

lemma query_tier1_calls:
  "snd (query_tier1_exact_match db player brand variation grade_opt grader_opt n)
     = db\<lparr>calls := Suc (calls db)\<rparr>"
  by (cases "fails db (calls db)") (simp_all add: query_tier1_ok query_tier1_fails)

lemma query_tier2_calls:
  "snd (query_tier2_fuzzy_match db player brand year_opt n) = db\<lparr>calls := Suc (calls db)\<rparr>"
  by (cases "fails db (calls db)") (simp_all add: query_tier2_ok query_tier2_fails)


lemma mset_subset_same_size: "A \<subseteq># B \<Longrightarrow> size B \<le> size A \<Longrightarrow> A = B"
  by (metis mset_subset_size nat_less_le not_le subset_mset.le_less)

text \<open>
  Claim C5 (amended). For every Tier-1 query that the store executes, the result
  consists of stored rows whose player, brand and variation identifiers equal those of
  the query, whose grade equals the grade of the query when a grade was supplied, and
  whose grader equals the grader of the query when a non-empty grader was supplied (an
  absent or empty grader adds no filter, and the year is never compared). The result
  has all matching rows if there are at most 10, and 10 of them otherwise; it is
  ordered most recent sale first, and no matching row left out is more recent than a
  returned one. No match yields the empty list.
\<close>

theorem query_tier1_exact_match_result:
  assumes "\<not> fails db (calls db)"
  shows "let rs = fst (query_tier1_exact_match db player brand variation grade_opt grader_opt 10);
             M = filter (tier1_matches player brand variation grade_opt grader_opt) (table db)
         in mset rs \<subseteq># mset M
          \<and> length rs = min 10 (length M)
          \<and> (length M \<le> 10 \<longrightarrow> mset rs = mset M)
          \<and> sorted_wrt (\<lambda>a b. sold_at b \<le> sold_at a) rs
          \<and> (\<forall>s r. s \<in># mset M - mset rs \<and> r \<in> set rs \<longrightarrow> sold_at s \<le> sold_at r)
          \<and> (M = [] \<longrightarrow> rs = [])"
proof -
  let ?P = "tier1_matches player brand variation grade_opt grader_opt"
  let ?k = "\<lambda>s. - sold_at s"
  let ?rs = "selected ?P ?k 10 (table db)"
  let ?M = "filter ?P (table db)"
  have rs: "fst (query_tier1_exact_match db player brand variation grade_opt grader_opt 10) = ?rs"
    using assms by (simp add: query_tier1_ok)
  have 1: "mset ?rs \<subseteq># mset ?M" by (rule selected_mset)
  have 2: "length ?rs = min 10 (length ?M)" by (rule selected_length)
  have 3: "length ?M \<le> 10 \<longrightarrow> mset ?rs = mset ?M"
  proof
    assume "length ?M \<le> 10"
    then have "length ?M \<le> length ?rs" using 2 by simp
    then have "size (mset ?M) \<le> size (mset ?rs)" by (simp only: size_mset)
    with 1 show "mset ?rs = mset ?M" by (rule mset_subset_same_size)
  qed
  have "sorted (map ?k ?rs)" by (rule selected_sorted)
  then have 4: "sorted_wrt (\<lambda>a b. sold_at b \<le> sold_at a) ?rs"
    by (simp add: sorted_map)
  have 5: "\<forall>s r. s \<in># mset ?M - mset ?rs \<and> r \<in> set ?rs \<longrightarrow> sold_at s \<le> sold_at r"
    using selected_rest[of _ ?P "table db" ?k 10] by fastforce
  have 6: "?M = [] \<longrightarrow> ?rs = []" using 2 by auto
  show ?thesis unfolding Let_def rs using 1 2 3 4 5 6 by blast
qed

lemma example_tier1:
  "fst (query_tier1_exact_match (example_db no_fault) (str ''pa'') (str ''b'') (str ''base'')
         (Some 9) (Some (str ''PSA'')) 10)
   = [example_row 1 ''pa'' ''base'' 2020 9 ''PSA'' 80 3]"
  by (simp add: query_tier1_exact_match_def execute_def example_db_def example_table_def
      example_row_def str_def Let_def no_fault_def)

lemma example_tier1_empty_grader:
  "fst (query_tier1_exact_match (example_db no_fault) (str ''pa'') (str ''b'') (str ''base'')
         None (Some []) 10)
   = [example_row 2 ''pa'' ''base'' 2020 9 ''BGS'' 100 5,
      example_row 3 ''pa'' ''base'' 2021 10 ''PSA'' 120 4,
      example_row 1 ''pa'' ''base'' 2020 9 ''PSA'' 80 3]"
  by (simp add: query_tier1_exact_match_def execute_def example_db_def example_table_def
      example_row_def str_def Let_def no_fault_def)


theorem query_tier1_exact_match_result_witness:
  "\<not> fails (example_db no_fault) (calls (example_db no_fault))
   \<and> fst (query_tier1_exact_match (example_db no_fault) (str ''pa'') (str ''b'') (str ''base'')
         (Some 9) (Some (str ''PSA'')) 10)
     = [example_row 1 ''pa'' ''base'' 2020 9 ''PSA'' 80 3]
   \<and> (let rs = fst (query_tier1_exact_match (example_db no_fault) (str ''pa'') (str ''b'')
                    (str ''base'') (Some 9) (Some (str ''PSA'')) 10);
           M = filter (tier1_matches (str ''pa'') (str ''b'') (str ''base'') (Some 9)
                    (Some (str ''PSA''))) (table (example_db no_fault))
       in mset rs \<subseteq># mset M
          \<and> length rs = min 10 (length M)
          \<and> (length M \<le> 10 \<longrightarrow> mset rs = mset M)
          \<and> sorted_wrt (\<lambda>a b. sold_at b \<le> sold_at a) rs
          \<and> (\<forall>s r. s \<in># mset M - mset rs \<and> r \<in> set rs \<longrightarrow> sold_at s \<le> sold_at r)
          \<and> (M = [] \<longrightarrow> rs = []))"
proof -
  have h: "\<not> fails (example_db no_fault) (calls (example_db no_fault))"
    by (simp add: example_db_def no_fault_def)
  show ?thesis
    by (intro conjI h example_tier1 query_tier1_exact_match_result[OF h])
qed

text \<open>
  With the empty text as grader the query applies no grader filter: it returns a sale
  graded by BGS, which the condition worded by the specification excludes.
\<close>

theorem query_tier1_empty_grader_counterexample:
  "example_row 2 ''pa'' ''base'' 2020 9 ''BGS'' 100 5
     \<in> set (fst (query_tier1_exact_match (example_db no_fault) (str ''pa'') (str ''b'')
                  (str ''base'') None (Some []) 10))
   \<and> \<not> tier1_matches_as_claimed (str ''pa'') (str ''b'') (str ''base'') None (Some [])
         (example_row 2 ''pa'' ''base'' 2020 9 ''BGS'' 100 5)"
  unfolding example_tier1_empty_grader
  by (simp add: tier1_matches_as_claimed_def example_row_def str_def)






section \<open>Properties of the valuation orchestrator\<close>

lemma get_estimated_value_exact:
  assumes "query_tier1_exact_match db player brand variation grade_opt grader_opt 10 = (s1, db1)"
    and "s1 \<noteq> []"
  shows "get_estimated_value A db player brand variation year_opt grade_opt grader_opt =
           (\<lparr>estimated_value = calculate_sanity_average A (map price s1), match_tier = ''exact'',
             sales_count = length s1, sales_data = map to_dict s1\<rparr>, db1)"
  using assms by (simp add: get_estimated_value_def Let_def)

lemma get_estimated_value_fallback:
  assumes "query_tier1_exact_match db player brand variation grade_opt grader_opt 10 = ([], db1)"
    and "query_tier2_fuzzy_match db1 player brand year_opt 10 = (s2, db2)"
  shows "get_estimated_value A db player brand variation year_opt grade_opt grader_opt =
           (\<lparr>estimated_value = calculate_sanity_average A (map price s2),
             match_tier = (if s2 \<noteq> [] then ''fuzzy'' else ''none''),
             sales_count = length s2, sales_data = map to_dict s2\<rparr>, db2)"
  using assms by (simp add: get_estimated_value_def Let_def)

lemma example_estimates:
  "calculate_sanity_average binary64 [80] = Some (Finite 80)"
  "calculate_sanity_average binary64 [500, 100, 80] = Some (Finite 100)"
  "calculate_sanity_average binary64 [120] = Some (Finite 120)"
  by (simp_all add: calculate_sanity_average_def slice_1_m1_def binary64_eval)


lemma example_fuzzy:
  "get_estimated_value binary64 (example_db no_fault) (str ''px'') (str ''b'') (str ''base'')
      (Some 2020) (Some 9) (Some (str ''PSA''))
   = (\<lparr>estimated_value = Some (Finite 100), match_tier = ''fuzzy'', sales_count = 3,
       sales_data = [example_row 4 ''pb'' ''gold'' 2020 8 ''PSA'' 500 9,
                     example_row 2 ''pa'' ''base'' 2020 9 ''BGS'' 100 5,
                     example_row 1 ''pa'' ''base'' 2020 9 ''PSA'' 80 3]\<rparr>,
      (example_db no_fault)\<lparr>calls := 2\<rparr>)"
  by (simp add: get_estimated_value_def query_tier1_exact_match_def query_tier2_fuzzy_match_def
      execute_def example_db_def example_table_def example_row_def str_def Let_def no_fault_def
      to_dict_def example_estimates calculate_sanity_average_Nil trgm_match_def
      example_similarity_def)

lemma example_none:
  "get_estimated_value binary64 (example_db no_fault) (str ''zz'') (str ''b'') (str ''base'')
      None None None
   = (\<lparr>estimated_value = None, match_tier = ''none'', sales_count = 0, sales_data = []\<rparr>,
      (example_db no_fault)\<lparr>calls := 2\<rparr>)"
  by (simp add: get_estimated_value_def query_tier1_exact_match_def query_tier2_fuzzy_match_def
      execute_def example_db_def example_table_def example_row_def str_def Let_def no_fault_def
      to_dict_def example_estimates calculate_sanity_average_Nil trgm_match_def
      example_similarity_def)

lemma example_first_fault:
  "fst (get_estimated_value binary64 (example_db first_fault) (str ''pa'') (str ''b'') (str ''base'')
      (Some 2021) (Some 9) (Some (str ''PSA'')))
   = \<lparr>estimated_value = Some (Finite 120), match_tier = ''fuzzy'', sales_count = 1,
      sales_data = [example_row 3 ''pa'' ''base'' 2021 10 ''PSA'' 120 4]\<rparr>"
  by (simp add: get_estimated_value_def query_tier1_exact_match_def query_tier2_fuzzy_match_def
      execute_def example_db_def example_table_def example_row_def str_def Let_def first_fault_def
      to_dict_def example_estimates calculate_sanity_average_Nil trgm_match_def
      example_similarity_def)

text \<open>
  Claim C2. For every query, the tier reported is \<^verbatim>\<open>exact\<close> exactly when Tier 1 returned
  at least one record, \<^verbatim>\<open>fuzzy\<close> exactly when Tier 1 returned none and Tier 2 returned
  at least one, and \<^verbatim>\<open>none\<close> exactly when both returned none. When Tier 1 returned
  records, the records used are those of Tier 1 and nothing else, whatever the
  similarities in the store, and only one statement has been executed: Tier 2 has not
  run. When Tier 1 returned none, the records used are those of Tier 2, run on the
  session that Tier 1 left, and two statements have been executed.
\<close>

theorem get_estimated_value_tiering:
  "let t1 = query_tier1_exact_match db player brand variation grade_opt grader_opt 10;
       t2 = query_tier2_fuzzy_match (snd t1) player brand year_opt 10;
       (r, db') = get_estimated_value A db player brand variation year_opt grade_opt grader_opt
   in (match_tier r = ''exact'' \<longleftrightarrow> fst t1 \<noteq> [])
    \<and> (match_tier r = ''fuzzy'' \<longleftrightarrow> fst t1 = [] \<and> fst t2 \<noteq> [])
    \<and> (match_tier r = ''none'' \<longleftrightarrow> fst t1 = [] \<and> fst t2 = [])
    \<and> (fst t1 \<noteq> [] \<longrightarrow>
          sales_data r = map to_dict (fst t1) \<and> db' = snd t1 \<and> calls db' = calls db + 1)
    \<and> (fst t1 = [] \<longrightarrow>
          sales_data r = map to_dict (fst t2) \<and> db' = snd t2 \<and> calls db' = calls db + 2)"
proof -
  obtain s1 db1 where t1: "query_tier1_exact_match db player brand variation grade_opt grader_opt 10 = (s1, db1)"
    by (cases "query_tier1_exact_match db player brand variation grade_opt grader_opt 10")
  obtain s2 db2 where t2: "query_tier2_fuzzy_match db1 player brand year_opt 10 = (s2, db2)"
    by (cases "query_tier2_fuzzy_match db1 player brand year_opt 10")
  have c1: "db1 = db\<lparr>calls := Suc (calls db)\<rparr>"
    using query_tier1_calls[of db player brand variation grade_opt grader_opt 10] t1 by simp
  have c2: "db2 = db1\<lparr>calls := Suc (calls db1)\<rparr>"
    using query_tier2_calls[of db1 player brand year_opt 10] t2 by simp
  show ?thesis
  proof (cases "s1 = []")
    case True
    show ?thesis
      using get_estimated_value_fallback[of db player brand variation grade_opt grader_opt db1 year_opt s2 db2 A]
        t1 t2 True c1 c2
      by (simp add: Let_def)
  next
    case False
    show ?thesis
      using get_estimated_value_exact[OF t1 False, of A year_opt] t1 t2 False c1
      by (simp add: Let_def)
  qed
qed

theorem get_estimated_value_tiering_witness:
  "fst (query_tier1_exact_match (example_db no_fault) (str ''pa'') (str ''b'') (str ''base'')
          (Some 9) (Some (str ''PSA'')) 10) \<noteq> []
   \<and> match_tier (fst (get_estimated_value binary64 (example_db no_fault) (str ''pa'') (str ''b'')
          (str ''base'') (Some 2020) (Some 9) (Some (str ''PSA'')))) = ''exact''
   \<and> calls (snd (get_estimated_value binary64 (example_db no_fault) (str ''pa'') (str ''b'')
          (str ''base'') (Some 2020) (Some 9) (Some (str ''PSA'')))) = 1
   \<and> fst (query_tier1_exact_match (example_db no_fault) (str ''px'') (str ''b'') (str ''base'')
          (Some 9) (Some (str ''PSA'')) 10) = []
   \<and> match_tier (fst (get_estimated_value binary64 (example_db no_fault) (str ''px'') (str ''b'')
          (str ''base'') (Some 2020) (Some 9) (Some (str ''PSA'')))) = ''fuzzy''
   \<and> calls (snd (get_estimated_value binary64 (example_db no_fault) (str ''px'') (str ''b'')
          (str ''base'') (Some 2020) (Some 9) (Some (str ''PSA'')))) = 2"
proof -
  have a: "fst (query_tier1_exact_match (example_db no_fault) (str ''pa'') (str ''b'') (str ''base'')
          (Some 9) (Some (str ''PSA'')) 10) \<noteq> []"
    unfolding example_tier1 by simp
  have b: "fst (query_tier1_exact_match (example_db no_fault) (str ''px'') (str ''b'') (str ''base'')
          (Some 9) (Some (str ''PSA'')) 10) = []"
    by (simp add: query_tier1_exact_match_def execute_def example_db_def example_table_def
        example_row_def str_def Let_def no_fault_def)
  have c: "fst (query_tier2_fuzzy_match
            (snd (query_tier1_exact_match (example_db no_fault) (str ''px'') (str ''b'')
                    (str ''base'') (Some 9) (Some (str ''PSA'')) 10))
            (str ''px'') (str ''b'') (Some 2020) 10) \<noteq> []"
    by (simp add: query_tier1_exact_match_def query_tier2_fuzzy_match_def execute_def
        example_db_def example_table_def example_row_def str_def Let_def no_fault_def
        trgm_match_def example_similarity_def)
  have d: "calls (example_db no_fault) = 0" by (simp add: example_db_def)
  have e: "match_tier (fst (get_estimated_value binary64 (example_db no_fault) (str ''pa'') (str ''b'')
          (str ''base'') (Some 2020) (Some 9) (Some (str ''PSA'')))) = ''exact''"
     "calls (snd (get_estimated_value binary64 (example_db no_fault) (str ''pa'') (str ''b'')
          (str ''base'') (Some 2020) (Some 9) (Some (str ''PSA''))))
      = calls (example_db no_fault) + 1"
    using a get_estimated_value_tiering[of "example_db no_fault" "str ''pa''" "str ''b''"
        "str ''base''" "Some 9" "Some (str ''PSA'')" "Some 2020" binary64, unfolded Let_def split_beta]
    by blast+
  have f: "match_tier (fst (get_estimated_value binary64 (example_db no_fault) (str ''px'') (str ''b'')
          (str ''base'') (Some 2020) (Some 9) (Some (str ''PSA'')))) = ''fuzzy''"
     "calls (snd (get_estimated_value binary64 (example_db no_fault) (str ''px'') (str ''b'')
          (str ''base'') (Some 2020) (Some 9) (Some (str ''PSA''))))
      = calls (example_db no_fault) + 2"
    using b c get_estimated_value_tiering[of "example_db no_fault" "str ''px''" "str ''b''"
        "str ''base''" "Some 9" "Some (str ''PSA'')" "Some 2020" binary64, unfolded Let_def split_beta]
    by blast+
  show ?thesis
    using a b e f unfolding d by simp
qed

text \<open>
  Claim C10. In every result of the orchestrator, the estimate is absent exactly when
  the count of sales is 0, and the count is 0 exactly when the tier is \<^verbatim>\<open>none\<close>; the
  count is the number of records of \<open>sales_data\<close>, and the estimate is that of the
  estimator on the prices of these records.
\<close>

theorem get_estimated_value_invariant:
  "let r = fst (get_estimated_value A db player brand variation year_opt grade_opt grader_opt)
   in (estimated_value r = None \<longleftrightarrow> sales_count r = 0)
    \<and> (sales_count r = 0 \<longleftrightarrow> match_tier r = ''none'')
    \<and> sales_count r = length (sales_data r)
    \<and> estimated_value r = calculate_sanity_average A (map price (sales_data r))"
proof -
  obtain s1 db1 where t1: "query_tier1_exact_match db player brand variation grade_opt grader_opt 10 = (s1, db1)"
    by (cases "query_tier1_exact_match db player brand variation grade_opt grader_opt 10")
  obtain s2 db2 where t2: "query_tier2_fuzzy_match db1 player brand year_opt 10 = (s2, db2)"
    by (cases "query_tier2_fuzzy_match db1 player brand year_opt 10")
  have td: "map to_dict xs = xs" for xs by (simp add: to_dict_def map_idI)
  show ?thesis
  proof (cases "s1 = []")
    case True
    show ?thesis
      using get_estimated_value_fallback[of db player brand variation grade_opt grader_opt db1 year_opt s2 db2 A]
        t1 t2 True
      by (simp add: Let_def td calculate_sanity_average_None_iff)
  next
    case False
    show ?thesis
      using get_estimated_value_exact[OF t1 False, of A year_opt] False
      by (simp add: Let_def td calculate_sanity_average_None_iff)
  qed
qed

theorem get_estimated_value_invariant_witness:
  "(let r = fst (get_estimated_value binary64 (example_db no_fault) (str ''px'') (str ''b'') (str ''base'')
                   (Some 2020) (Some 9) (Some (str ''PSA'')))
    in estimated_value r = Some (Finite 100) \<and> sales_count r = 3 \<and> match_tier r = ''fuzzy''
       \<and> length (sales_data r) = 3
       \<and> calculate_sanity_average binary64 (map price (sales_data r)) = Some (Finite 100))
   \<and> (let r = fst (get_estimated_value binary64 (example_db no_fault) (str ''zz'') (str ''b'')
                   (str ''base'') None None None)
      in estimated_value r = None \<and> sales_count r = 0 \<and> match_tier r = ''none''
         \<and> sales_data r = [])"
  using get_estimated_value_invariant[of binary64 "example_db no_fault" "str ''px''" "str ''b''"
          "str ''base''" "Some 2020" "Some 9" "Some (str ''PSA'')"]
        get_estimated_value_invariant[of binary64 "example_db no_fault" "str ''zz''" "str ''b''"
          "str ''base''" None None None]
  unfolding example_fuzzy example_none
  by (simp add: Let_def)

lemma get_estimated_value_no_match:
  assumes "\<not> fails db (calls db)" and "\<not> fails db (Suc (calls db))"
    and "filter (tier1_matches player brand variation grade_opt grader_opt) (table db) = []"
    and "filter (tier2_matches db player brand year_opt) (table db) = []"
  shows "fst (get_estimated_value A db player brand variation year_opt grade_opt grader_opt) =
          \<lparr>estimated_value = None, match_tier = ''none'', sales_count = 0, sales_data = []\<rparr>"
proof -
  let ?db1 = "db\<lparr>calls := Suc (calls db)\<rparr>"
  have ok2: "\<not> fails ?db1 (calls ?db1)" using assms(2) by simp
  have t1: "query_tier1_exact_match db player brand variation grade_opt grader_opt 10 = ([], ?db1)"
    using assms(1,3) by (simp add: query_tier1_ok selected_def)
  have m: "tier2_matches ?db1 player brand year_opt = tier2_matches db player brand year_opt"
    by (simp add: tier2_matches_def fun_eq_iff)
  have t2: "query_tier2_fuzzy_match ?db1 player brand year_opt 10
            = ([], ?db1\<lparr>calls := Suc (calls ?db1)\<rparr>)"
    using assms(4) by (simp add: query_tier2_ok[OF ok2] selected_def m)
  show ?thesis
    using get_estimated_value_fallback[OF t1 t2]
    by (simp add: calculate_sanity_average_Nil)
qed

text \<open>
  Claim C8. A statement that fails inside a tier gives that tier the empty list of
  records. If the statement of Tier 1 fails and that of Tier 2 succeeds, the result is
  built from the rows that Tier 2 selects, with tier \<^verbatim>\<open>fuzzy\<close>, or \<^verbatim>\<open>none\<close> if there are
  none; if both fail, the result is the empty valuation with tier \<^verbatim>\<open>none\<close>; and if both
  succeed and no row matches in either tier, the result is the same empty valuation.
  The orchestrator returns a result in every case: neither a failure of a statement nor
  the absence of a match reaches the caller as an error.
\<close>

theorem matcher_absorbs_failures:
  "(fails db (calls db) \<longrightarrow>
      fst (query_tier1_exact_match db player brand variation grade_opt grader_opt n) = []
      \<and> fst (query_tier2_fuzzy_match db player brand year_opt n) = [])
   \<and> (fails db (calls db) \<and> \<not> fails db (Suc (calls db)) \<longrightarrow>
        (let rs = selected (tier2_matches db player brand year_opt)
                    (\<lambda>s. (- similarity db (player_id s) player, - sold_at s)) 10 (table db)
         in fst (get_estimated_value A db player brand variation year_opt grade_opt grader_opt) =
              \<lparr>estimated_value = calculate_sanity_average A (map price rs),
               match_tier = (if rs \<noteq> [] then ''fuzzy'' else ''none''),
               sales_count = length rs, sales_data = map to_dict rs\<rparr>))
   \<and> (fails db (calls db) \<and> fails db (Suc (calls db)) \<longrightarrow>
        fst (get_estimated_value A db player brand variation year_opt grade_opt grader_opt) =
          \<lparr>estimated_value = None, match_tier = ''none'', sales_count = 0, sales_data = []\<rparr>)
   \<and> (\<not> fails db (calls db) \<and> \<not> fails db (Suc (calls db))
        \<and> filter (tier1_matches player brand variation grade_opt grader_opt) (table db) = []
        \<and> filter (tier2_matches db player brand year_opt) (table db) = [] \<longrightarrow>
        fst (get_estimated_value A db player brand variation year_opt grade_opt grader_opt) =
          \<lparr>estimated_value = None, match_tier = ''none'', sales_count = 0, sales_data = []\<rparr>)"
proof -
  let ?db1 = "db\<lparr>calls := Suc (calls db)\<rparr>"
  have a: "fails db (calls db) \<longrightarrow>
      fst (query_tier1_exact_match db player brand variation grade_opt grader_opt n) = []
      \<and> fst (query_tier2_fuzzy_match db player brand year_opt n) = []"
    by (simp add: query_tier1_fails query_tier2_fails)
  have b: "fails db (calls db) \<and> \<not> fails db (Suc (calls db)) \<longrightarrow>
        (let rs = selected (tier2_matches db player brand year_opt)
                    (\<lambda>s. (- similarity db (player_id s) player, - sold_at s)) 10 (table db)
         in fst (get_estimated_value A db player brand variation year_opt grade_opt grader_opt) =
              \<lparr>estimated_value = calculate_sanity_average A (map price rs),
               match_tier = (if rs \<noteq> [] then ''fuzzy'' else ''none''),
               sales_count = length rs, sales_data = map to_dict rs\<rparr>)"
  proof
    assume h: "fails db (calls db) \<and> \<not> fails db (Suc (calls db))"
    then have ok2: "\<not> fails ?db1 (calls ?db1)" by simp
    have t1: "query_tier1_exact_match db player brand variation grade_opt grader_opt 10 = ([], ?db1)"
      using h by (simp add: query_tier1_fails)
    have m: "tier2_matches ?db1 player brand year_opt = tier2_matches db player brand year_opt"
      by (simp add: tier2_matches_def fun_eq_iff)
    show "let rs = selected (tier2_matches db player brand year_opt)
                    (\<lambda>s. (- similarity db (player_id s) player, - sold_at s)) 10 (table db)
         in fst (get_estimated_value A db player brand variation year_opt grade_opt grader_opt) =
              \<lparr>estimated_value = calculate_sanity_average A (map price rs),
               match_tier = (if rs \<noteq> [] then ''fuzzy'' else ''none''),
               sales_count = length rs, sales_data = map to_dict rs\<rparr>"
      using get_estimated_value_fallback[OF t1 query_tier2_ok[OF ok2]]
      by (simp add: Let_def m)
  qed
  have c: "fails db (calls db) \<and> fails db (Suc (calls db)) \<longrightarrow>
        fst (get_estimated_value A db player brand variation year_opt grade_opt grader_opt) =
          \<lparr>estimated_value = None, match_tier = ''none'', sales_count = 0, sales_data = []\<rparr>"
  proof
    assume h: "fails db (calls db) \<and> fails db (Suc (calls db))"
    then have f2: "fails ?db1 (calls ?db1)" by simp
    have t1: "query_tier1_exact_match db player brand variation grade_opt grader_opt 10 = ([], ?db1)"
      using h by (simp add: query_tier1_fails)
    show "fst (get_estimated_value A db player brand variation year_opt grade_opt grader_opt) =
          \<lparr>estimated_value = None, match_tier = ''none'', sales_count = 0, sales_data = []\<rparr>"
      using get_estimated_value_fallback[OF t1 query_tier2_fails[OF f2]]
      by (simp add: calculate_sanity_average_Nil)
  qed
  have d: "\<not> fails db (calls db) \<and> \<not> fails db (Suc (calls db))
        \<and> filter (tier1_matches player brand variation grade_opt grader_opt) (table db) = []
        \<and> filter (tier2_matches db player brand year_opt) (table db) = [] \<longrightarrow>
        fst (get_estimated_value A db player brand variation year_opt grade_opt grader_opt) =
          \<lparr>estimated_value = None, match_tier = ''none'', sales_count = 0, sales_data = []\<rparr>"
    using get_estimated_value_no_match[of db player brand variation grade_opt grader_opt year_opt A]
    by blast
  show ?thesis using a b c d by blast
qed

theorem matcher_absorbs_failures_witness:
  "fails (example_db first_fault) (calls (example_db first_fault))
   \<and> \<not> fails (example_db first_fault) (Suc (calls (example_db first_fault)))
   \<and> fst (query_tier1_exact_match (example_db first_fault) (str ''pa'') (str ''b'') (str ''base'')
          (Some 9) (Some (str ''PSA'')) 10) = []
   \<and> fst (get_estimated_value binary64 (example_db first_fault) (str ''pa'') (str ''b'') (str ''base'')
          (Some 2021) (Some 9) (Some (str ''PSA'')))
     = \<lparr>estimated_value = Some (Finite 120), match_tier = ''fuzzy'', sales_count = 1,
        sales_data = [example_row 3 ''pa'' ''base'' 2021 10 ''PSA'' 120 4]\<rparr>
   \<and> fails (example_db all_fault) (calls (example_db all_fault))
   \<and> fails (example_db all_fault) (Suc (calls (example_db all_fault)))
   \<and> fst (get_estimated_value binary64 (example_db all_fault) (str ''pa'') (str ''b'') (str ''base'')
          (Some 2021) (Some 9) (Some (str ''PSA'')))
     = \<lparr>estimated_value = None, match_tier = ''none'', sales_count = 0, sales_data = []\<rparr>"
proof -
  have f: "fails (example_db first_fault) (calls (example_db first_fault))"
      "\<not> fails (example_db first_fault) (Suc (calls (example_db first_fault)))"
      "fails (example_db all_fault) (calls (example_db all_fault))"
      "fails (example_db all_fault) (Suc (calls (example_db all_fault)))"
    by (simp_all add: example_db_def first_fault_def all_fault_def)
  show ?thesis
    using f example_first_fault
      matcher_absorbs_failures[of "example_db first_fault" "str ''pa''" "str ''b''" "str ''base''"
        "Some 9" "Some (str ''PSA'')" 10 "Some 2021" binary64]
      matcher_absorbs_failures[of "example_db all_fault" "str ''pa''" "str ''b''" "str ''base''"
        "Some 9" "Some (str ''PSA'')" 10 "Some 2021" binary64]
    by simp
qed

section \<open>Properties of the verdict calculator\<close>

lemma example_format_50: "example_format (Finite 50) = ''50.00''"
  by (simp add: example_format_def round_half_even_def decimal_digits.simps digit_char_def Let_def)

lemma example_format_100: "example_format (Finite 100) = ''100.00''"
  by (simp add: example_format_def round_half_even_def decimal_digits.simps digit_char_def Let_def)

text \<open>
  The floats 100.1 and 0.1 are \<open>3521955646092083 / 2 ^ 45\<close> and
  \<open>3602879701896397 / 2 ^ 55\<close>. With the first as estimate and the second as asking
  price the profit returned is the float 100, which is not the estimate minus the
  asking price.
\<close>

theorem calculate_profit_loss_rounding_counterexample:
  "calculate_profit_loss binary64 example_format (Finite (3602879701896397 / 2 ^ 55))
       (Some (Finite (3521955646092083 / 2 ^ 45)))
     = (Some (Finite 100), ''GOOD DEAL - Potential profit: $100.00'')
   \<and> (3521955646092083 / 2 ^ 45 - 3602879701896397 / 2 ^ 55 :: real) \<noteq> 100"
  by (simp add: calculate_profit_loss_def binary64_eval example_format_100)

text \<open>
  Claim C3 (amended). For every asking price and every optional estimate, and whatever
  the float arithmetic and the format of the runtime, the verdict calculator returns no
  profit and the insufficient-data label when the estimate is absent; otherwise the
  profit is the float difference of the estimate and the asking price, with the
  good-deal label carrying the printed profit when it is greater than zero, the
  overpriced label carrying the printed absolute value of the profit when it is less
  than zero, and the fair-price label otherwise, in particular when it is zero. Where
  the difference of two finite floats is computed without rounding, the profit is the
  estimate minus the asking price and the label is decided by the order of the two. In
  the binary64 arithmetic the three examples of the specification evaluate as stated.
\<close>

theorem calculate_profit_loss_verdict:
  "calculate_profit_loss A fmt asking None
     = (None, ''INSUFFICIENT DATA - No comparable sales found'')
   \<and> fst (calculate_profit_loss A fmt asking (Some est)) = Some (py_sub A est asking)
   \<and> (gt_zero (py_sub A est asking) \<longrightarrow>
        snd (calculate_profit_loss A fmt asking (Some est))
          = ''GOOD DEAL - Potential profit: $'' @ fmt (py_sub A est asking))
   \<and> (lt_zero (py_sub A est asking) \<longrightarrow>
        snd (calculate_profit_loss A fmt asking (Some est))
          = ''OVERPRICED - Potential loss: $'' @ fmt (fabs (py_sub A est asking)))
   \<and> (\<not> gt_zero (py_sub A est asking) \<and> \<not> lt_zero (py_sub A est asking) \<longrightarrow>
        snd (calculate_profit_loss A fmt asking (Some est))
          = ''FAIR PRICE - Listing matches market value'')
   \<and> (py_sub A est asking = Finite 0 \<longrightarrow>
        calculate_profit_loss A fmt asking (Some est)
          = (Some (Finite 0), ''FAIR PRICE - Listing matches market value''))
   \<and> (py_sub A (Finite e) (Finite a) = Finite (e - a) \<longrightarrow>
        calculate_profit_loss A fmt (Finite a) (Some (Finite e))
          = (Some (Finite (e - a)),
             if a < e then ''GOOD DEAL - Potential profit: $'' @ fmt (Finite (e - a))
             else if e < a then ''OVERPRICED - Potential loss: $'' @ fmt (Finite (a - e))
             else ''FAIR PRICE - Listing matches market value''))
   \<and> calculate_profit_loss binary64 fmt (Finite 100) (Some (Finite 150))
       = (Some (Finite 50), ''GOOD DEAL - Potential profit: $'' @ fmt (Finite 50))
   \<and> calculate_profit_loss binary64 fmt (Finite 200) (Some (Finite 150))
       = (Some (Finite (- 50)), ''OVERPRICED - Potential loss: $'' @ fmt (Finite 50))
   \<and> calculate_profit_loss binary64 fmt (Finite 100) (Some (Finite 100))
       = (Some (Finite 0), ''FAIR PRICE - Listing matches market value'')"
proof -
  have n: "calculate_profit_loss A fmt asking None
     = (None, ''INSUFFICIENT DATA - No comparable sales found'')"
    by (simp add: calculate_profit_loss_def)
  have f: "fst (calculate_profit_loss A fmt asking (Some est)) = Some (py_sub A est asking)"
    by (simp add: calculate_profit_loss_def Let_def)
  have g: "gt_zero (py_sub A est asking) \<longrightarrow>
        snd (calculate_profit_loss A fmt asking (Some est))
          = ''GOOD DEAL - Potential profit: $'' @ fmt (py_sub A est asking)"
    by (simp add: calculate_profit_loss_def Let_def)
  have l: "lt_zero (py_sub A est asking) \<longrightarrow>
        snd (calculate_profit_loss A fmt asking (Some est))
          = ''OVERPRICED - Potential loss: $'' @ fmt (fabs (py_sub A est asking))"
    by (cases "py_sub A est asking") (simp_all add: calculate_profit_loss_def Let_def)
  have z: "\<not> gt_zero (py_sub A est asking) \<and> \<not> lt_zero (py_sub A est asking) \<longrightarrow>
        snd (calculate_profit_loss A fmt asking (Some est))
          = ''FAIR PRICE - Listing matches market value''"
    by (simp add: calculate_profit_loss_def Let_def)
  have z0: "py_sub A est asking = Finite 0 \<longrightarrow>
        calculate_profit_loss A fmt asking (Some est)
          = (Some (Finite 0), ''FAIR PRICE - Listing matches market value'')"
    by (simp add: calculate_profit_loss_def Let_def)
  have x: "py_sub A (Finite e) (Finite a) = Finite (e - a) \<longrightarrow>
        calculate_profit_loss A fmt (Finite a) (Some (Finite e))
          = (Some (Finite (e - a)),
             if a < e then ''GOOD DEAL - Potential profit: $'' @ fmt (Finite (e - a))
             else if e < a then ''OVERPRICED - Potential loss: $'' @ fmt (Finite (a - e))
             else ''FAIR PRICE - Listing matches market value'')"
    by (auto simp: calculate_profit_loss_def Let_def abs_if)
  have b1: "calculate_profit_loss binary64 fmt (Finite 100) (Some (Finite 150))
       = (Some (Finite 50), ''GOOD DEAL - Potential profit: $'' @ fmt (Finite 50))"
    by (simp add: calculate_profit_loss_def binary64_eval)
  have b2: "calculate_profit_loss binary64 fmt (Finite 200) (Some (Finite 150))
       = (Some (Finite (- 50)), ''OVERPRICED - Potential loss: $'' @ fmt (Finite 50))"
    by (simp add: calculate_profit_loss_def binary64_eval)
  have b3: "calculate_profit_loss binary64 fmt (Finite 100) (Some (Finite 100))
       = (Some (Finite 0), ''FAIR PRICE - Listing matches market value'')"
    by (simp add: calculate_profit_loss_def binary64_eval)
  show ?thesis
    by (intro conjI n f g l z z0 x b1 b2 b3)
qed

theorem calculate_profit_loss_verdict_witness:
  "gt_zero (py_sub binary64 (Finite 150) (Finite 100))
   \<and> calculate_profit_loss binary64 example_format (Finite 100) (Some (Finite 150))
       = (Some (Finite 50), ''GOOD DEAL - Potential profit: $50.00'')
   \<and> lt_zero (py_sub binary64 (Finite 150) (Finite 200))
   \<and> snd (calculate_profit_loss binary64 example_format (Finite 200) (Some (Finite 150)))
       = ''OVERPRICED - Potential loss: $50.00''
   \<and> py_sub binary64 (Finite 100) (Finite 100) = Finite 0
   \<and> calculate_profit_loss binary64 example_format (Finite 100) (Some (Finite 100))
       = (Some (Finite 0), ''FAIR PRICE - Listing matches market value'')
   \<and> py_sub binary64 (Finite 150) (Finite 200) = Finite (150 - 200)
   \<and> calculate_profit_loss binary64 example_format (Finite 200) (Some (Finite 150))
       = (Some (Finite (- 50)), ''OVERPRICED - Potential loss: $50.00'')"
proof -
  have s: "py_sub binary64 (Finite 150) (Finite 100) = Finite 50"
      "py_sub binary64 (Finite 150) (Finite 200) = Finite (- 50)"
      "py_sub binary64 (Finite 100) (Finite 100) = Finite 0"
    by (simp_all add: binary64_eval)
  show ?thesis
    using calculate_profit_loss_verdict[of binary64 example_format "Finite 100" "Finite 150" 150 200]
          calculate_profit_loss_verdict[of binary64 example_format "Finite 200" "Finite 150" 150 200]
          calculate_profit_loss_verdict[of binary64 example_format "Finite 100" "Finite 100" 150 200]
    by (simp add: s example_format_50)
qed

section \<open>Properties of the analysis endpoint and its cache\<close>



lemma analyze_listing_miss:
  "get_cached_value (cache st)
      (generate_cache_key (md5_hexdigest rt) ''analysis'' (title request)) = None
   \<or> get_cached_value (cache st)
      (generate_cache_key (md5_hexdigest rt) ''analysis'' (title request)) = Some []
   \<Longrightarrow> analyze_listing rt request st
       = analyze_fresh rt request (generate_cache_key (md5_hexdigest rt) ''analysis'' (title request)) st"
  by (auto simp: analyze_listing_def Let_def)




















end
